theory Spec2Isabelle
  imports Complex_Main
begin

section \<open>Errors\<close>

text \<open>
  The Python exceptions that the modelled code can raise.  Every raise is a value
  \<open>Inl e\<close> of a result type \<open>error + 'a\<close>.
\<close>

datatype error =
    ValueError          \<comment> \<open>\<open>list.index\<close> of an absent element; a failed argument check of \<open>torch.distributions\<close>\<close>
  | IndexError          \<comment> \<open>index out of range\<close>
  | UnboundLocalError   \<comment> \<open>a local variable read before any branch assigned it\<close>
  | CatSizeError        \<comment> \<open>\<open>torch.cat\<close> along dim 1 of tensors with different row counts\<close>
  | MatmulShapeError    \<comment> \<open>a linear layer applied to rows of another width than its \<open>in_features\<close>\<close>
  | ItemError           \<comment> \<open>\<open>Tensor.item()\<close> on a tensor that does not have exactly one element\<close>
  | StackEmptyError     \<comment> \<open>\<open>torch.stack\<close> of an empty list\<close>

text \<open>Sequencing of steps that may raise.\<close>

definition and_then :: "error + 'a \<Rightarrow> ('a \<Rightarrow> error + 'b) \<Rightarrow> error + 'b" where
  "and_then m f = (case m of Inl e \<Rightarrow> Inl e | Inr v \<Rightarrow> f v)"

section \<open>GNNParser: the edge index of \<open>parse_obs\<close>\<close>

text \<open>
  A node is a pair (region, charge level): the source's \<open>o[0]\<close> and \<open>o[1]\<close> are
  \<open>fst org\<close> and \<open>snd org\<close> here (\<open>org\<close> for the origin \<open>o\<close>, \<open>dst\<close> for the destination \<open>d\<close>).
  An edge index tensor of shape \<open>[2, E]\<close> is the list of its \<open>E\<close> columns
  (origin index, destination index), in order.
\<close>

type_synonym node = "int \<times> int"
type_synonym edge_index = "(nat \<times> nat) list"

text \<open>The part of the simulator that the edge construction reads.\<close>

record env =
  nodes :: "node list"
  edges :: "(node \<times> node) list"
  gcn_edge_idx :: edge_index

text \<open>\<open>self.env.nodes.index(a)\<close>: the first position of \<open>a\<close>, ValueError if absent.\<close>

fun nodes_index :: "'a list \<Rightarrow> 'a \<Rightarrow> error + nat" where
  "nodes_index [] a = Inl ValueError"
| "nodes_index (b # bs) a =
     (if b = a then Inr 0
      else (case nodes_index bs a of Inl e \<Rightarrow> Inl e | Inr i \<Rightarrow> Inr (Suc i)))"

text \<open>
  The nested scan \<open>for o in nodes: for d in nodes: ...\<close>; \<open>body o d\<close> is the list of
  edges that the loop body appends for the pair, in order.
\<close>

definition scan_pairs :: "(node \<Rightarrow> node \<Rightarrow> (node \<times> node) list) \<Rightarrow> node list \<Rightarrow> (node \<times> node) list" where
  "scan_pairs body ns = concat (map (\<lambda>org. concat (map (\<lambda>dst. body org dst) ns)) ns)"

text \<open>
  The loop \<open>for e in edges\<close> that looks both end points up in the node list and
  concatenates the new column to \<open>edge_idx\<close>.
\<close>

fun index_edges :: "node list \<Rightarrow> (node \<times> node) list \<Rightarrow> edge_index \<Rightarrow> error + edge_index" where
  "index_edges ns [] edge_idx = Inr edge_idx"
| "index_edges ns (e # es) edge_idx =
     (case nodes_index ns (fst e) of
        Inl err \<Rightarrow> Inl err
      | Inr origin_node_idx \<Rightarrow>
          (case nodes_index ns (snd e) of
             Inl err \<Rightarrow> Inl err
           | Inr destination_node_idx \<Rightarrow>
               index_edges ns es (edge_idx @ [(origin_node_idx, destination_node_idx)])))"

text \<open>The conditions of the seven versions, as the source writes them.\<close>

definition self_loop :: "node \<Rightarrow> node \<Rightarrow> bool" where
  "self_loop org dst = (fst org = fst dst \<and> snd org = snd dst)"

definition grid_hop :: "node \<Rightarrow> node \<Rightarrow> bool" where
  "grid_hop org dst =
     ((snd org = snd dst \<and> fst org \<noteq> fst dst)
      \<or> (snd org = snd dst - 1 \<and> fst org = fst dst)
      \<or> (snd org = snd dst + 1 \<and> fst org = fst dst))"

definition body_v1 :: "node \<Rightarrow> node \<Rightarrow> (node \<times> node) list" where
  "body_v1 org dst = (if self_loop org dst then [(org, dst)] else [])"

definition body_v3 :: "node \<Rightarrow> node \<Rightarrow> (node \<times> node) list" where
  "body_v3 org dst = (if grid_hop org dst then [(org, dst)] else [])"

definition body_v4 :: "node \<Rightarrow> node \<Rightarrow> (node \<times> node) list" where
  "body_v4 org dst =
     (if (snd org = snd dst \<and> fst org = fst dst) \<or> grid_hop org dst then [(org, dst)] else [])"

definition body_v6 :: "int \<Rightarrow> int \<Rightarrow> node \<Rightarrow> node \<Rightarrow> (node \<times> node) list" where
  "body_v6 charge_delta max_charge org dst =
     (if fst org \<noteq> fst dst \<and> snd org + (charge_delta - 1) = snd dst \<and> snd dst \<noteq> max_charge
      then [(org, dst)] else [])
     @ (if fst org = fst dst \<and> snd org + (charge_delta + 1) = snd dst then [(org, dst)] else [])
     @ (if fst org = fst dst \<and> snd org - 1 = snd dst then [(org, dst)] else [])"

definition body_v5 :: "int \<Rightarrow> int \<Rightarrow> node \<Rightarrow> node \<Rightarrow> (node \<times> node) list" where
  "body_v5 charge_delta max_charge org dst =
     body_v6 charge_delta max_charge org dst @ (if self_loop org dst then [(org, dst)] else [])"

text \<open>
  \<open>GNNParser.parse_obs\<close>, restricted to the edge index it puts into the returned
  \<open>Data\<close> object.  A version outside 0..6 leaves \<open>edge_index\<close> unassigned, and the
  construction of \<open>Data\<close> raises.
\<close>

definition parse_obs_edge_index :: "env \<Rightarrow> int \<Rightarrow> int \<Rightarrow> int \<Rightarrow> error + edge_index" where
  "parse_obs_edge_index e version charge_delta max_charge =
     (if version = 0 then Inr (gcn_edge_idx e)
      else if version = 1 then index_edges (nodes e) (scan_pairs body_v1 (nodes e)) []
      else if version = 2 then
        (case index_edges (nodes e) (scan_pairs body_v1 (nodes e)) [] of
           Inl err \<Rightarrow> Inl err
         | Inr edge_idx \<Rightarrow> Inr (edge_idx @ gcn_edge_idx e))
      else if version = 3 then index_edges (nodes e) (scan_pairs body_v3 (nodes e)) []
      else if version = 4 then index_edges (nodes e) (scan_pairs body_v4 (nodes e)) []
      else if version = 5 then
        (case index_edges (nodes e) (scan_pairs (body_v5 charge_delta max_charge) (nodes e)) [] of
           Inl err \<Rightarrow> Inl err
         | Inr edge_idx \<Rightarrow> Inr (edge_idx @ gcn_edge_idx e))
      else if version = 6 then
        (case index_edges (nodes e) (scan_pairs (body_v6 charge_delta max_charge) (nodes e)) [] of
           Inl err \<Rightarrow> Inl err
         | Inr edge_idx \<Rightarrow> Inr (edge_idx @ gcn_edge_idx e))
      else Inl UnboundLocalError)"

section \<open>Trainer: discounted returns\<close>

text \<open>\<open>args.gamma = 0.97\<close>\<close>

definition gamma :: real where
  "gamma = 0.97"

text \<open>
  The loop \<open>for r in self.rewards[::-1]: R = r + args.gamma * R; returns.insert(0, R)\<close>,
  started with \<open>R = 0\<close> and \<open>returns = []\<close>.
\<close>

fun returns_loop :: "real list \<Rightarrow> real \<Rightarrow> real list \<Rightarrow> real list" where
  "returns_loop [] R returns = returns"
| "returns_loop (r # rs) R returns = returns_loop rs (r + gamma * R) ((r + gamma * R) # returns)"

definition discounted_returns :: "real list \<Rightarrow> real list" where
  "discounted_returns rs = returns_loop (rev rs) 0 []"

section \<open>Tensors and layers\<close>

text \<open>
  A two-dimensional tensor is its number of columns together with the list of its rows;
  the number of columns is kept on its own because a tensor without rows still has a
  width, and the layers check it.  Entries are real numbers: the development is about
  shapes, buffer contents and exact arithmetic, not about rounding.  Transfers between
  devices (\<open>.to(device)\<close>) leave the values as they are and are left out, and so are
  the \<open>print\<close> calls of \<open>EdgeConv.message\<close>.
\<close>

record tensor =
  ncols :: nat
  rows :: "real list list"

definition elementwise :: "(real \<Rightarrow> real) \<Rightarrow> tensor \<Rightarrow> tensor" where
  "elementwise f X = \<lparr> ncols = ncols X, rows = map (map f) (rows X) \<rparr>"

definition relu :: "real \<Rightarrow> real" where
  "relu v = max 0 v"

definition softplus :: "real \<Rightarrow> real" where
  "softplus v = ln (1 + exp v)"

definition sigmoid :: "real \<Rightarrow> real" where
  "sigmoid v = 1 / (1 + exp (- v))"

text \<open>\<open>torch.cat([A, B], dim=1)\<close>: rows are joined pairwise; the row counts must agree.\<close>

definition cat_dim1 :: "tensor \<Rightarrow> tensor \<Rightarrow> error + tensor" where
  "cat_dim1 A B =
     (if length (rows A) = length (rows B)
      then Inr \<lparr> ncols = ncols A + ncols B, rows = map2 (@) (rows A) (rows B) \<rparr>
      else Inl CatSizeError)"

text \<open>
  \<open>nn.Linear(in_features, out_features)\<close>: the two sizes fixed by the constructor, and
  the learnable weight matrix and bias as functions of their indices.  The layer acts
  on every row on its own and raises when the width of its input is not
  \<open>in_features\<close>.
\<close>

record linear =
  in_features :: nat
  out_features :: nat
  weight :: "nat \<Rightarrow> nat \<Rightarrow> real"
  bias :: "nat \<Rightarrow> real"

definition linear_row :: "linear \<Rightarrow> real list \<Rightarrow> real list" where
  "linear_row l r =
     map (\<lambda>j. sum_list (map2 (\<lambda>i v. weight l j i * v) [0..<in_features l] r) + bias l j)
         [0..<out_features l]"

definition Linear :: "linear \<Rightarrow> tensor \<Rightarrow> error + tensor" where
  "Linear l X =
     (if ncols X = in_features l
      then Inr \<lparr> ncols = out_features l, rows = map (linear_row l) (rows X) \<rparr>
      else Inl MatmulShapeError)"

text \<open>Every entry of an edge index must name a node.\<close>

definition edges_in_range :: "edge_index \<Rightarrow> nat \<Rightarrow> bool" where
  "edges_in_range ei n = list_all (\<lambda>e. fst e < n \<and> snd e < n) ei"

text \<open>
  \<open>GCNConv(in_channels, out_channels)\<close> is a layer of the graph library.  Its sizes
  are fixed by the constructor; what it computes is a parameter: \<open>gcn_entry ei X i k\<close>
  is entry \<open>k\<close> of the output row of node \<open>i\<close>.  The output has one row per input row
  and \<open>out_channels\<close> columns; the layer raises on an edge that leaves the node range
  and on an input of another width than \<open>in_channels\<close>.
\<close>

record gcn_conv =
  gcn_in :: nat
  gcn_out :: nat
  gcn_entry :: "edge_index \<Rightarrow> real list list \<Rightarrow> nat \<Rightarrow> nat \<Rightarrow> real"

definition GCNConv :: "gcn_conv \<Rightarrow> tensor \<Rightarrow> edge_index \<Rightarrow> error + tensor" where
  "GCNConv g X ei =
     (if \<not> edges_in_range ei (length (rows X)) then Inl IndexError
      else if ncols X \<noteq> gcn_in g then Inl MatmulShapeError
      else Inr \<lparr> ncols = gcn_out g,
                 rows = map (\<lambda>i. map (\<lambda>k. gcn_entry g ei (rows X) i k) [0..<gcn_out g])
                            [0..<length (rows X)] \<rparr>)"

text \<open>
  \<open>EdgeConv(in_channels, out_channels)\<close>, the class of the source: its \<open>mlp\<close> is
  \<open>Linear(in_channels, out_channels)\<close>, \<open>ReLU\<close>, \<open>Linear(out_channels, out_channels)\<close>.
\<close>

record edge_conv =
  mlp_first :: linear
  mlp_second :: linear

text \<open>
  \<open>EdgeConv.message\<close>: \<open>tmp = torch.cat([x_i, x_j, edge_attr], dim=1)\<close>, then the
  \<open>mlp\<close>.
\<close>

definition EdgeConv_message :: "edge_conv \<Rightarrow> tensor \<Rightarrow> tensor \<Rightarrow> tensor \<Rightarrow> error + tensor" where
  "EdgeConv_message ec x_i x_j edge_attr =
     and_then (cat_dim1 x_i x_j) (\<lambda>x_ij.
     and_then (cat_dim1 x_ij edge_attr) (\<lambda>tmp.
     and_then (Linear (mlp_first ec) tmp) (\<lambda>h.
       Linear (mlp_second ec) (elementwise relu h))))"

text \<open>
  The \<open>max\<close> aggregation of \<open>propagate\<close>: node \<open>i\<close> gets, column by column, the largest
  entry among the messages of the edges that end in \<open>i\<close>, and 0 when no edge ends in
  \<open>i\<close>.
\<close>

definition max_or_zero :: "real list \<Rightarrow> real" where
  "max_or_zero vs = (case vs of [] \<Rightarrow> 0 | v # ws \<Rightarrow> fold max ws v)"

definition aggregate_max :: "edge_index \<Rightarrow> tensor \<Rightarrow> nat \<Rightarrow> tensor" where
  "aggregate_max ei msgs n =
     \<lparr> ncols = ncols msgs,
       rows = map (\<lambda>i. map (\<lambda>k. max_or_zero
                                   (map (\<lambda>em. snd em ! k)
                                        (filter (\<lambda>em. snd (fst em) = i) (zip ei (rows msgs)))))
                            [0..<ncols msgs])
                  [0..<n] \<rparr>"

text \<open>
  \<open>EdgeConv.forward\<close>, that is \<open>propagate(edge_index, x=x, edge_attr=edge_attr)\<close>:
  \<open>x_j\<close> holds the row of the origin of every edge (\<open>edge_index[0]\<close>), \<open>x_i\<close> that of
  its destination (\<open>edge_index[1]\<close>).
\<close>

definition EdgeConv :: "edge_conv \<Rightarrow> tensor \<Rightarrow> edge_index \<Rightarrow> tensor \<Rightarrow> error + tensor" where
  "EdgeConv ec X ei edge_attr =
     (if \<not> edges_in_range ei (length (rows X)) then Inl IndexError
      else
        (let x_i = \<lparr> ncols = ncols X, rows = map (\<lambda>e. rows X ! snd e) ei \<rparr>;
             x_j = \<lparr> ncols = ncols X, rows = map (\<lambda>e. rows X ! fst e) ei \<rparr>
         in and_then (EdgeConv_message ec x_i x_j edge_attr) (\<lambda>msgs.
              Inr (aggregate_max ei msgs (length (rows X))))))"

section \<open>Graph state and the two networks\<close>

text \<open>The \<open>Data\<close> object handed to the networks; \<open>x\<close> has one row per node.\<close>

record data =
  data_x :: tensor
  data_edge_index :: edge_index
  data_edge_attr :: tensor

text \<open>
  \<open>GNNActor\<close> and \<open>GNNCritic\<close> take the same constructor arguments and build the same
  layers up to the last one.  A network is its constructor arguments together with the
  values of its parameters; the sizes of the layers are the ones \<open>__init__\<close> computes
  from the arguments.
\<close>

record gnn_net =
  in_channels :: nat
  hidden_channels :: nat
  net_T :: nat
  conv1_entry :: "edge_index \<Rightarrow> real list list \<Rightarrow> nat \<Rightarrow> nat \<Rightarrow> real"
  conv2_entry :: "edge_index \<Rightarrow> real list list \<Rightarrow> nat \<Rightarrow> nat \<Rightarrow> real"
  conv3_entry :: "edge_index \<Rightarrow> real list list \<Rightarrow> nat \<Rightarrow> nat \<Rightarrow> real"
  econv1_weight1 :: "nat \<Rightarrow> nat \<Rightarrow> real"
  econv1_bias1 :: "nat \<Rightarrow> real"
  econv1_weight2 :: "nat \<Rightarrow> nat \<Rightarrow> real"
  econv1_bias2 :: "nat \<Rightarrow> real"
  lin1_weight :: "nat \<Rightarrow> nat \<Rightarrow> real"
  lin1_bias :: "nat \<Rightarrow> real"
  lin2_weight :: "nat \<Rightarrow> nat \<Rightarrow> real"
  lin2_bias :: "nat \<Rightarrow> real"
  lin3_weight :: "nat \<Rightarrow> nat \<Rightarrow> real"
  lin3_bias :: "nat \<Rightarrow> real"
  lin4_weight :: "nat \<Rightarrow> nat \<Rightarrow> real"
  lin4_bias :: "nat \<Rightarrow> real"

definition conv1 :: "gnn_net \<Rightarrow> gcn_conv" where
  "conv1 net = \<lparr> gcn_in = in_channels net, gcn_out = hidden_channels net,
                 gcn_entry = conv1_entry net \<rparr>"

definition econv1 :: "gnn_net \<Rightarrow> edge_conv" where
  "econv1 net =
     \<lparr> mlp_first = \<lparr> in_features = net_T net * 3, out_features = hidden_channels net,
                      weight = econv1_weight1 net, bias = econv1_bias1 net \<rparr>,
       mlp_second = \<lparr> in_features = hidden_channels net, out_features = hidden_channels net,
                       weight = econv1_weight2 net, bias = econv1_bias2 net \<rparr> \<rparr>"

definition conv2 :: "gnn_net \<Rightarrow> gcn_conv" where
  "conv2 net = \<lparr> gcn_in = hidden_channels net * 2, gcn_out = hidden_channels net,
                 gcn_entry = conv2_entry net \<rparr>"

definition conv3 :: "gnn_net \<Rightarrow> gcn_conv" where
  "conv3 net = \<lparr> gcn_in = hidden_channels net, gcn_out = in_channels net,
                 gcn_entry = conv3_entry net \<rparr>"

definition lin1 :: "gnn_net \<Rightarrow> linear" where
  "lin1 net = \<lparr> in_features = in_channels net * 2, out_features = in_channels net,
                weight = lin1_weight net, bias = lin1_bias net \<rparr>"

definition lin2 :: "gnn_net \<Rightarrow> linear" where
  "lin2 net = \<lparr> in_features = in_channels net, out_features = 128,
                weight = lin2_weight net, bias = lin2_bias net \<rparr>"

definition lin3 :: "gnn_net \<Rightarrow> linear" where
  "lin3 net = \<lparr> in_features = 128, out_features = 32,
                weight = lin3_weight net, bias = lin3_bias net \<rparr>"

text \<open>\<open>nn.Linear(32, 2)\<close> in \<open>GNNActor\<close>, \<open>nn.Linear(32, 1)\<close> in \<open>GNNCritic\<close>.\<close>

definition actor_lin4 :: "gnn_net \<Rightarrow> linear" where
  "actor_lin4 net = \<lparr> in_features = 32, out_features = 2,
                      weight = lin4_weight net, bias = lin4_bias net \<rparr>"

definition critic_lin4 :: "gnn_net \<Rightarrow> linear" where
  "critic_lin4 net = \<lparr> in_features = 32, out_features = 1,
                       weight = lin4_weight net, bias = lin4_bias net \<rparr>"

text \<open>
  The part that \<open>GNNActor.forward\<close> and \<open>GNNCritic.forward\<close> share word for word: from
  \<open>out_1\<close> to the third softplus.
\<close>

definition gnn_hidden :: "gnn_net \<Rightarrow> data \<Rightarrow> error + tensor" where
  "gnn_hidden net d =
     and_then (GCNConv (conv1 net) (data_x d) (data_edge_index d)) (\<lambda>c1.
     and_then (EdgeConv (econv1 net) (data_x d) (data_edge_index d) (data_edge_attr d)) (\<lambda>e1.
     and_then (cat_dim1 (elementwise relu c1) (elementwise relu e1)) (\<lambda>out_1c.
     and_then (GCNConv (conv2 net) out_1c (data_edge_index d)) (\<lambda>c2.
     and_then (GCNConv (conv3 net) (elementwise relu c2) (data_edge_index d)) (\<lambda>c3.
     and_then (cat_dim1 (data_x d) (elementwise relu c3)) (\<lambda>out_3c.
     and_then (Linear (lin1 net) out_3c) (\<lambda>h1.
     and_then (Linear (lin2 net) (elementwise softplus h1)) (\<lambda>h2.
     and_then (Linear (lin3 net) (elementwise softplus h2)) (\<lambda>h3.
       Inr (elementwise softplus h3))))))))))"

text \<open>\<open>GNNActor.forward\<close> returns the two columns \<open>x[:, 0]\<close> and \<open>x[:, 1]\<close>.\<close>

definition GNNActor_forward :: "gnn_net \<Rightarrow> data \<Rightarrow> error + (real list \<times> real list)" where
  "GNNActor_forward net d =
     and_then (gnn_hidden net d) (\<lambda>h.
     and_then (Linear (actor_lin4 net) h) (\<lambda>x4.
       Inr (map (\<lambda>r. r ! 0) (rows x4), map (\<lambda>r. r ! 1) (rows x4))))"

text \<open>\<open>GNNCritic.forward\<close> returns \<open>self.lin4(x)\<close> as it is: a tensor of shape \<open>[N, 1]\<close>.\<close>

definition GNNCritic_forward :: "gnn_net \<Rightarrow> data \<Rightarrow> error + tensor" where
  "GNNCritic_forward net d = and_then (gnn_hidden net d) (\<lambda>h. Linear (critic_lin4 net) h)"

text \<open>
  \<open>A2C.__init__\<close> builds both networks with \<open>in_channels = input_size = 2 + 2 * T\<close>,
  \<open>hidden_channels = input_size * 2\<close> and its own \<open>T\<close>.
\<close>

definition A2C_built :: "nat \<Rightarrow> gnn_net \<Rightarrow> bool" where
  "A2C_built T net =
     (in_channels net = 2 + 2 * T \<and> hidden_channels net = (2 + 2 * T) * 2 \<and> net_T net = T)"

text \<open>\<open>A2C.forward\<close> with its default \<open>jitter=1e-20\<close>, on the parsed observation \<open>d\<close>.\<close>

definition jitter :: real where
  "jitter = 1 / 10 ^ 20"

definition A2C_forward :: "gnn_net \<Rightarrow> gnn_net \<Rightarrow> data \<Rightarrow> error + (real list \<times> real list \<times> tensor)" where
  "A2C_forward actor critic d =
     and_then (GNNActor_forward actor d) (\<lambda>a_out.
       (let concentration = map (\<lambda>a. softplus a + jitter) (fst a_out);
            non_zero = map sigmoid (snd a_out)
        in and_then (GNNCritic_forward critic d) (\<lambda>v. Inr (concentration, non_zero, v))))"

section \<open>The agent's buffers\<close>

text \<open>
  A \<open>SavedAction\<close> is the pair (log_prob, value); the value is the critic's output
  tensor as \<open>forward\<close> returned it.
\<close>

type_synonym saved_action = "real \<times> tensor"

record a2c =
  a2c_env :: env
  eps :: real
  saved_actions :: "saved_action list"
  rewards :: "real list"
  means_concentration :: "real list"
  std_concentration :: "real list"

text \<open>The buffers as \<open>A2C.__init__\<close> leaves them; \<open>eps\<close> is the float32 machine epsilon.\<close>

definition A2C_init :: "env \<Rightarrow> a2c" where
  "A2C_init e = \<lparr> a2c_env = e, eps = 1 / 2 ^ 23, saved_actions = [], rewards = [],
                 means_concentration = [], std_concentration = [] \<rparr>"

definition set_env :: "env \<Rightarrow> a2c \<Rightarrow> a2c" where
  "set_env e s = s\<lparr> a2c_env := e, means_concentration := [], std_concentration := [] \<rparr>"

section \<open>select_action\<close>

text \<open>
  What the sampler takes from the library and its random generator: \<open>bernoulli node\<close>
  is the result of \<open>torch.bernoulli(non_zero[node])\<close> in iteration \<open>node\<close>,
  \<open>rsample c\<close> the result of \<open>Dirichlet(c).rsample()\<close> and \<open>log_prob c a\<close> the density
  that \<open>Dirichlet(c).log_prob(a)\<close> returns when it accepts its argument.
\<close>

record sampler =
  bernoulli :: "nat \<Rightarrow> real"
  rsample :: "real list \<Rightarrow> real list"
  log_prob :: "real list \<Rightarrow> real list \<Rightarrow> real"

text \<open>
  The argument checks that \<open>torch.distributions\<close> runs by default.  The constructor
  \<open>Dirichlet(c)\<close> raises unless every concentration is positive.  \<open>log_prob(a)\<close> raises
  unless \<open>a\<close> has the length of \<open>c\<close> and lies on the simplex: no negative entry, and a
  sum that differs from 1 by less than \<open>1e-6\<close>.
\<close>

definition concentration_ok :: "real list \<Rightarrow> bool" where
  "concentration_ok c = list_all (\<lambda>x. 0 < x) c"

definition on_simplex :: "real list \<Rightarrow> real list \<Rightarrow> bool" where
  "on_simplex c a =
     (length a = length c \<and> list_all (\<lambda>x. 0 \<le> x) a \<and> \<bar>sum_list a - 1\<bar> < 1 / 10 ^ 6)"

definition np_mean :: "real list \<Rightarrow> real" where
  "np_mean vs = sum_list vs / real (length vs)"

definition np_std :: "real list \<Rightarrow> real" where
  "np_std vs = sqrt (np_mean (map (\<lambda>v. (v - np_mean vs) ^ 2) vs))"

text \<open>
  The first loop over the nodes.  Its state is \<open>(concentration_without_zeros,
  sampled_zero_bool_arr, log_prob_for_zeros)\<close>.  \<open>torch.index_select\<close> raises when the
  index is outside \<open>concentration\<close>.
\<close>

fun gate_loop :: "sampler \<Rightarrow> real list \<Rightarrow> real list \<Rightarrow> nat list
    \<Rightarrow> real list \<times> bool list \<times> real \<Rightarrow> error + (real list \<times> bool list \<times> real)" where
  "gate_loop lib concentration non_zero [] st = Inr st"
| "gate_loop lib concentration non_zero (node # rest) (cwz, zs, lpz) =
     (if bernoulli lib node > 0 then
        (if node < length concentration then
           gate_loop lib concentration non_zero rest
             (cwz @ [concentration ! node], zs @ [False], lpz + ln (non_zero ! node))
         else Inl IndexError)
      else gate_loop lib concentration non_zero rest
             (cwz, zs @ [True], lpz + ln (1 - non_zero ! node)))"

text \<open>
  The second loop, which puts the action together.  \<open>sampled_zero_bool_arr\<close> has one
  entry per node, so the loop over \<open>range(non_zero.shape[0])\<close> is a loop over its
  entries.  \<open>dirichlet_action_np\<close> is \<open>None\<close> when no branch has assigned it.
\<close>

fun assemble :: "bool list \<Rightarrow> real list option \<Rightarrow> nat \<Rightarrow> real list \<Rightarrow> error + real list" where
  "assemble [] dirichlet_action_np dirichlet_idx action_np = Inr action_np"
| "assemble (z # zs) dirichlet_action_np dirichlet_idx action_np =
     (if z then assemble zs dirichlet_action_np dirichlet_idx (action_np @ [0])
      else (case dirichlet_action_np of
              None \<Rightarrow> Inl UnboundLocalError
            | Some a \<Rightarrow>
                (if dirichlet_idx < length a
                 then assemble zs dirichlet_action_np (Suc dirichlet_idx) (action_np @ [a ! dirichlet_idx])
                 else Inl IndexError)))"

text \<open>The evaluation-mode action: \<open>c / (c.sum() + 1e-16)\<close>.\<close>

definition eval_action :: "real list \<Rightarrow> real list" where
  "eval_action cwz = map (\<lambda>c. c / (sum_list cwz + 1 / 10 ^ 16)) cwz"

text \<open>
  The body of \<open>select_action\<close> after its first line; \<open>fwd\<close> is what \<open>self.forward()\<close>
  returned.  The result is the returned action (or the exception) together with the
  agent as the call leaves it: the two statistics are appended before the distribution
  is built, the saved action only after \<open>log_prob\<close> has accepted the drawn point.
  (\<open>select_action_MPNN\<close> and \<open>select_action_GAT\<close> repeat the same body.)
\<close>

definition select_action_from :: "bool \<Rightarrow> sampler \<Rightarrow> real list \<times> real list \<times> tensor \<Rightarrow> a2c
    \<Rightarrow> (error + real list) \<times> a2c" where
  "select_action_from eval_mode lib fwd s =
     (case fwd of (concentration, non_zero, v) \<Rightarrow>
        (case gate_loop lib concentration non_zero [0..<length non_zero] ([], [], 0) of
           Inl e \<Rightarrow> (Inl e, s)
         | Inr (cwz, zs, lpz) \<Rightarrow>
             (if cwz \<noteq> [] then
                (let s1 = s\<lparr> means_concentration := means_concentration s @ [np_mean cwz],
                              std_concentration := std_concentration s @ [np_std cwz] \<rparr>
                 in if \<not> concentration_ok cwz then (Inl ValueError, s1)
                    else
                      (let dirichlet_action = (if eval_mode then eval_action cwz else rsample lib cwz)
                       in if \<not> on_simplex cwz dirichlet_action then (Inl ValueError, s1)
                          else
                            (let log_prob_dirichlet = log_prob lib cwz dirichlet_action;
                                 s2 = s1\<lparr> saved_actions :=
                                            saved_actions s1 @ [(log_prob_dirichlet + lpz, v)] \<rparr>
                             in (assemble zs (Some dirichlet_action) 0 [], s2))))
              else
                (let s2 = s\<lparr> saved_actions := saved_actions s @ [(0 + lpz, v)] \<rparr>
                 in (assemble zs None 0 [], s2)))))"

definition select_action :: "gnn_net \<Rightarrow> gnn_net \<Rightarrow> bool \<Rightarrow> sampler \<Rightarrow> data \<Rightarrow> a2c
    \<Rightarrow> (error + real list) \<times> a2c" where
  "select_action actor critic eval_mode lib d s =
     (case A2C_forward actor critic d of
        Inl e \<Rightarrow> (Inl e, s)
      | Inr fwd \<Rightarrow> select_action_from eval_mode lib fwd s)"

section \<open>training_step\<close>

text \<open>\<open>returns.mean()\<close>, \<open>returns.std()\<close> (with Bessel's correction) and the normalisation.\<close>

definition torch_std :: "real list \<Rightarrow> real" where
  "torch_std vs = sqrt (sum_list (map (\<lambda>v. (v - np_mean vs) ^ 2) vs) / (real (length vs) - 1))"

definition normalize_returns :: "real \<Rightarrow> real list \<Rightarrow> real list" where
  "normalize_returns ep returns = map (\<lambda>R. (R - np_mean returns) / (torch_std returns + ep)) returns"

text \<open>\<open>Tensor.item()\<close>: the only element of a tensor that has exactly one.\<close>

definition item :: "tensor \<Rightarrow> error + real" where
  "item t = (case concat (rows t) of [] \<Rightarrow> Inl ItemError | [v] \<Rightarrow> Inr v | _ # _ # _ \<Rightarrow> Inl ItemError)"

text \<open>The loop that fills \<open>log_probs\<close> and \<open>values\<close>.\<close>

fun items_loop :: "saved_action list \<Rightarrow> real list \<Rightarrow> real list \<Rightarrow> error + (real list \<times> real list)" where
  "items_loop [] log_probs values = Inr (log_probs, values)"
| "items_loop ((lp, v) # rest) log_probs values =
     (case item v of
        Inl e \<Rightarrow> Inl e
      | Inr y \<Rightarrow> items_loop rest (log_probs @ [lp]) (values @ [y]))"

text \<open>
  \<open>F.smooth_l1_loss(value, torch.tensor([R]))\<close>: the target is broadcast over the
  elements of \<open>value\<close>, the element losses are averaged.
\<close>

definition smooth_l1_loss :: "tensor \<Rightarrow> real \<Rightarrow> real" where
  "smooth_l1_loss v R =
     np_mean (map (\<lambda>y. if \<bar>y - R\<bar> < 1 then 0.5 * (y - R) ^ 2 else \<bar>y - R\<bar> - 0.5) (concat (rows v)))"

text \<open>The loop over \<open>zip(saved_actions, returns)\<close> that fills both loss lists.\<close>

fun losses_loop :: "(saved_action \<times> real) list \<Rightarrow> real list \<Rightarrow> real list
    \<Rightarrow> error + (real list \<times> real list)" where
  "losses_loop [] policy_losses value_losses = Inr (policy_losses, value_losses)"
| "losses_loop (((lp, v), R) # rest) policy_losses value_losses =
     (case item v of
        Inl e \<Rightarrow> Inl e
      | Inr y \<Rightarrow>
          losses_loop rest (policy_losses @ [- lp * (R - y)]) (value_losses @ [smooth_l1_loss v R]))"

definition clamp :: "real \<Rightarrow> real \<Rightarrow> real \<Rightarrow> real" where
  "clamp v lo hi = min (max v lo) hi"

record diagnostics =
  a_loss :: real
  v_loss :: real
  mean_value :: real
  mean_concentration :: real
  mean_std :: real
  mean_log_prob :: real
  std_log_prob :: real

text \<open>
  \<open>A2C.training_step\<close>.  The result is the returned diagnostics (or the exception)
  together with the agent as the call leaves it.  An exception leaves the buffers as
  they were: both \<open>del\<close> statements are the last ones before the \<open>return\<close>.  The
  optimizer steps change only network weights, which are no part of the buffers.
  Where numpy and torch give \<open>nan\<close> (the mean of an empty list, the standard deviation
  of a single return) the quotient by zero stands in its place.
\<close>

definition training_step :: "a2c \<Rightarrow> (error + diagnostics) \<times> a2c" where
  "training_step s =
     (let returns = normalize_returns (eps s) (discounted_returns (rewards s))
      in case items_loop (saved_actions s) [] [] of
           Inl e \<Rightarrow> (Inl e, s)
         | Inr (log_probs, values) \<Rightarrow>
             (case losses_loop (zip (saved_actions s) returns) [] [] of
                Inl e \<Rightarrow> (Inl e, s)
              | Inr (policy_losses, value_losses) \<Rightarrow>
                  (if policy_losses = [] then (Inl StackEmptyError, s)
                   else (Inr \<lparr> a_loss = clamp (sum_list policy_losses) (- 1000) 1000,
                               v_loss = sum_list value_losses,
                               mean_value = np_mean values,
                               mean_concentration = np_mean (means_concentration s),
                               mean_std = np_mean (std_concentration s),
                               mean_log_prob = np_mean log_probs,
                               std_log_prob = np_std log_probs \<rparr>,
                         s\<lparr> rewards := [], saved_actions := [] \<rparr>))))"

section \<open>The training driver\<close>

text \<open>
  Modelled from the spec: the training driver is not among the source files; per
  environment step it selects an action and then appends the step's reward to
  \<open>rewards\<close> ("append (log-prob, value) and reward each step"), and at the end of an
  episode it calls \<open>training_step\<close>.  An exception of \<open>select_action\<close> reaches the
  driver before it appends the reward.
\<close>

definition append_reward :: "real \<Rightarrow> a2c \<Rightarrow> a2c" where
  "append_reward r s = s\<lparr> rewards := rewards s @ [r] \<rparr>"




section \<open>Notions used to state the properties\<close>

text \<open>A node participates when its Bernoulli sample is positive (\<open>if sample > 0\<close>).\<close>

definition participates :: "sampler \<Rightarrow> nat \<Rightarrow> bool" where
  "participates lib node = (bernoulli lib node > 0)"

text \<open>The concentrations of the participating nodes among the first \<open>n\<close>, in node order.\<close>

definition participating_concentration :: "sampler \<Rightarrow> real list \<Rightarrow> nat \<Rightarrow> real list" where
  "participating_concentration lib concentration n =
     map (\<lambda>i. concentration ! i) (filter (participates lib) [0..<n])"

text \<open>
  The point that \<open>select_action\<close> hands to \<open>log_prob\<close>: the normalised concentrations
  in evaluation mode, the library's sample otherwise.
\<close>

definition drawn_point :: "bool \<Rightarrow> sampler \<Rightarrow> real list \<Rightarrow> real list" where
  "drawn_point eval_mode lib cwz = (if eval_mode then eval_action cwz else rsample lib cwz)"

text \<open>The Bernoulli part of the log-probability, as the sum the specification writes.\<close>

definition gate_log_prob :: "sampler \<Rightarrow> real list \<Rightarrow> real" where
  "gate_log_prob lib non_zero =
     (\<Sum>i\<leftarrow>[0..<length non_zero].
        if participates lib i then ln (non_zero ! i) else ln (1 - non_zero ! i))"

text \<open>
  Spreading the values \<open>a\<close> over the positions that are not flagged as zero: what the
  second loop of \<open>select_action\<close> computes when it does not run out of values.
\<close>

fun spread :: "bool list \<Rightarrow> real list \<Rightarrow> real list" where
  "spread [] a = []"
| "spread (True # zs) a = 0 # spread zs a"
| "spread (False # zs) [] = []"
| "spread (False # zs) (y # a) = y # spread zs a"

text \<open>The mean of the Dirichlet distribution with concentration \<open>c\<close>: \<open>c / c.sum()\<close>.\<close>

definition dirichlet_mean :: "real list \<Rightarrow> real list" where
  "dirichlet_mean c = map (\<lambda>x. x / sum_list c) c"

text \<open>The backward recurrence of the returns, written as a function of its own.\<close>

fun returns_spec :: "real list \<Rightarrow> real list" where
  "returns_spec [] = []"
| "returns_spec (r # rs) =
     (r + gamma * (case returns_spec rs of [] \<Rightarrow> 0 | R # _ \<Rightarrow> R)) # returns_spec rs"

text \<open>The column that \<open>index_edges\<close> produces for an edge between listed nodes.\<close>

definition col :: "node list \<Rightarrow> node \<times> node \<Rightarrow> nat \<times> nat" where
  "col ns e = (projr (nodes_index ns (fst e)), projr (nodes_index ns (snd e)))"

section \<open>Concrete inputs\<close>

text \<open>
  A simulator with three nodes and four directed native edges; a two-node and a
  one-node graph state with node features of width 1 and edge features of width 1; a
  network built with \<open>in_channels = 1\<close>, \<open>hidden_channels = 2\<close> and \<open>T = 1\<close>, whose
  sizes fit these graph states (\<open>1 + 1 + 1 = 3 * T\<close> in \<open>EdgeConv.message\<close>), with all
  parameters 0; and three random sources: every node participates, no node
  participates, the second node abstains.
\<close>

definition toy_env :: env where
  "toy_env = \<lparr> nodes = [(0, 0), (0, 1), (1, 0)],
               edges = [((0, 0), (0, 1)), ((0, 1), (0, 0)), ((0, 0), (1, 0)), ((1, 0), (0, 0))],
               gcn_edge_idx = [(0, 1), (1, 0), (0, 2), (2, 0)] \<rparr>"

definition two_node_data :: data where
  "two_node_data = \<lparr> data_x = \<lparr> ncols = 1, rows = [[0], [1]] \<rparr>,
                     data_edge_index = [(0, 1), (1, 0)],
                     data_edge_attr = \<lparr> ncols = 1, rows = [[0], [0]] \<rparr> \<rparr>"

definition one_node_data :: data where
  "one_node_data = \<lparr> data_x = \<lparr> ncols = 1, rows = [[0]] \<rparr>,
                     data_edge_index = [(0, 0)],
                     data_edge_attr = \<lparr> ncols = 1, rows = [[0]] \<rparr> \<rparr>"

definition toy_net :: gnn_net where
  "toy_net = \<lparr> in_channels = 1, hidden_channels = 2, net_T = 1,
               conv1_entry = (\<lambda>ei X i k. 0), conv2_entry = (\<lambda>ei X i k. 0),
               conv3_entry = (\<lambda>ei X i k. 0),
               econv1_weight1 = (\<lambda>j i. 0), econv1_bias1 = (\<lambda>j. 0),
               econv1_weight2 = (\<lambda>j i. 0), econv1_bias2 = (\<lambda>j. 0),
               lin1_weight = (\<lambda>j i. 0), lin1_bias = (\<lambda>j. 0),
               lin2_weight = (\<lambda>j i. 0), lin2_bias = (\<lambda>j. 0),
               lin3_weight = (\<lambda>j i. 0), lin3_bias = (\<lambda>j. 0),
               lin4_weight = (\<lambda>j i. 0), lin4_bias = (\<lambda>j. 0) \<rparr>"

definition zero_value :: tensor where
  "zero_value = \<lparr> ncols = 1, rows = [[0]] \<rparr>"

definition all_in :: sampler where
  "all_in = \<lparr> bernoulli = (\<lambda>node. 1), rsample = (\<lambda>c. replicate (length c) (1 / real (length c))),
              log_prob = (\<lambda>c a. 0) \<rparr>"

definition all_out :: sampler where
  "all_out = \<lparr> bernoulli = (\<lambda>node. 0), rsample = (\<lambda>c. replicate (length c) (1 / real (length c))),
               log_prob = (\<lambda>c a. 0) \<rparr>"

definition skip_second :: sampler where
  "skip_second = \<lparr> bernoulli = (\<lambda>node. if node = 1 then 0 else 1),
                   rsample = (\<lambda>c. replicate (length c) (1 / real (length c))),
                   log_prob = (\<lambda>c a. - 1) \<rparr>"

text \<open>The same Bernoulli samples as \<open>skip_second\<close>, with another Dirichlet behind them.\<close>

definition skip_second_other :: sampler where
  "skip_second_other = \<lparr> bernoulli = (\<lambda>node. if node = 1 then 0 else 1),
                   rsample = (\<lambda>c. c),
                   log_prob = (\<lambda>c a. 7) \<rparr>"

text \<open>
  One recorded step on the two-node graph and one on the one-node graph, each followed
  by its reward.
\<close>

definition two_node_episode :: a2c where
  "two_node_episode =
     append_reward 1 (snd (select_action toy_net toy_net False all_out two_node_data (A2C_init toy_env)))"

definition one_node_episode :: a2c where
  "one_node_episode =
     append_reward 1 (snd (select_action toy_net toy_net False all_out one_node_data (A2C_init toy_env)))"

text \<open>
  Two episodes after one \<open>set_env\<close>, one step each, with participating concentrations
  \<open>[2]\<close> and then \<open>[4]\<close>; the second starts from the buffers that the update of the
  first leaves.
\<close>

definition first_episode :: a2c where
  "first_episode =
     append_reward 1 (snd (select_action_from False all_in ([2], [1/2], zero_value)
                             (set_env toy_env (A2C_init toy_env))))"

definition after_first_update :: a2c where
  "after_first_update = first_episode\<lparr> rewards := [], saved_actions := [] \<rparr>"

definition second_episode :: a2c where
  "second_episode =
     append_reward 1 (snd (select_action_from False all_in ([4], [1/2], zero_value) after_first_update))"


section \<open>Properties of the edge index and of the returns\<close>

subsection \<open>Looking nodes up and scanning pairs\<close>

lemma nodes_index_mem:
  "a \<in> set bs \<Longrightarrow> \<exists>i. nodes_index bs a = Inr i \<and> i < length bs \<and> bs ! i = a"
  by (induction bs) (auto split: sum.splits)

lemma nodes_index_distinct:
  "distinct bs \<Longrightarrow> i < length bs \<Longrightarrow> nodes_index bs (bs ! i) = Inr i"
proof (induction bs arbitrary: i)
  case Nil
  then show ?case by simp
next
  case (Cons b bs)
  show ?case
  proof (cases i)
    case 0
    then show ?thesis by simp
  next
    case (Suc j)
    with Cons.prems have "j < length bs" and "bs ! j \<in> set bs" and "b \<notin> set bs" and "distinct bs"
      by auto
    with Cons.IH [of j] Suc show ?thesis by auto
  qed
qed

lemma index_edges_ok:
  "set es \<subseteq> set ns \<times> set ns \<Longrightarrow> index_edges ns es acc = Inr (acc @ map (col ns) es)"
proof (induction es arbitrary: acc)
  case Nil
  then show ?case by simp
next
  case (Cons e es)
  from Cons.prems obtain i j where "nodes_index ns (fst e) = Inr i" "nodes_index ns (snd e) = Inr j"
    using nodes_index_mem [of "fst e" ns] nodes_index_mem [of "snd e" ns]
    by (cases e) auto
  moreover from Cons.prems have "set es \<subseteq> set ns \<times> set ns" by simp
  ultimately show ?case using Cons.IH by (simp add: col_def)
qed

lemma scan_pairs_set:
  "set (scan_pairs body ns) = (\<Union>a\<in>set ns. \<Union>b\<in>set ns. set (body a b))"
  by (simp add: scan_pairs_def)

lemma scan_v1_within: "set (scan_pairs body_v1 ns) \<subseteq> set ns \<times> set ns"
  by (auto simp: scan_pairs_set body_v1_def)

lemma scan_v3_within: "set (scan_pairs body_v3 ns) \<subseteq> set ns \<times> set ns"
  by (auto simp: scan_pairs_set body_v3_def)

lemma scan_v4_within: "set (scan_pairs body_v4 ns) \<subseteq> set ns \<times> set ns"
  by (auto simp: scan_pairs_set body_v4_def)

lemma scan_v3_sub_v4: "set (scan_pairs body_v3 ns) \<subseteq> set (scan_pairs body_v4 ns)"
  by (auto simp: scan_pairs_set body_v3_def body_v4_def split: if_splits)

lemma inner_v1_distinct:
  "distinct ns \<Longrightarrow> a \<in> set ns \<Longrightarrow> concat (map (\<lambda>d. body_v1 a d) ns) = [(a, a)]"
proof (induction ns)
  case Nil
  then show ?case by simp
next
  case (Cons b bs)
  have none: "a \<notin> set cs \<Longrightarrow> concat (map (\<lambda>d. body_v1 a d) cs) = []" for cs
    by (induction cs) (auto simp: body_v1_def self_loop_def prod_eq_iff)
  show ?case
  proof (cases "a = b")
    case True
    with Cons.prems have "a \<notin> set bs" by simp
    with True none show ?thesis by (simp add: body_v1_def self_loop_def)
  next
    case False
    with Cons show ?thesis by (auto simp: body_v1_def self_loop_def prod_eq_iff)
  qed
qed

lemma scan_v1_distinct:
  "distinct ns \<Longrightarrow> scan_pairs body_v1 ns = map (\<lambda>a. (a, a)) ns"
proof -
  assume d: "distinct ns"
  have "set cs \<subseteq> set ns \<Longrightarrow> concat (map (\<lambda>a. concat (map (\<lambda>d. body_v1 a d) ns)) cs) = map (\<lambda>a. (a, a)) cs" for cs
    by (induction cs) (simp_all add: inner_v1_distinct [OF d])
  then show ?thesis by (simp add: scan_pairs_def)
qed

lemma cols_v1_distinct:
  "distinct ns \<Longrightarrow> map (col ns) (map (\<lambda>a. (a, a)) ns) = map (\<lambda>i. (i, i)) [0..<length ns]"
  by (rule nth_equalityI) (simp_all add: col_def nodes_index_distinct)

subsection \<open>The loop of the returns computes the recurrence\<close>

lemma returns_loop_spec:
  "returns_loop xs (case returns_spec ys of [] \<Rightarrow> 0 | R # _ \<Rightarrow> R) (returns_spec ys)
     = returns_spec (rev xs @ ys)"
proof (induction xs arbitrary: ys)
  case Nil
  then show ?case by simp
next
  case (Cons r rs)
  from Cons.IH [of "r # ys"] show ?case by simp
qed

lemma discounted_returns_spec: "discounted_returns rs = returns_spec rs"
  using returns_loop_spec [of "rev rs" "[]"] by (simp add: discounted_returns_def)

lemma returns_spec_length: "length (returns_spec rs) = length rs"
  by (induction rs) simp_all

lemma returns_spec_nth:
  "t < length rs \<Longrightarrow>
   returns_spec rs ! t = rs ! t + gamma * (if Suc t < length rs then returns_spec rs ! Suc t else 0)"
proof (induction rs arbitrary: t)
  case Nil
  then show ?case by simp
next
  case (Cons r rs)
  show ?case
  proof (cases t)
    case 0
    have "(case returns_spec rs of [] \<Rightarrow> 0 | R # _ \<Rightarrow> R) = (if 0 < length rs then returns_spec rs ! 0 else 0)"
      using returns_spec_length [of rs] by (cases "returns_spec rs") auto
    with 0 show ?thesis by simp
  next
    case (Suc k)
    with Cons.prems have "k < length rs" by simp
    from Cons.IH [OF this] Suc show ?thesis by simp
  qed
qed

text \<open>
  Claim C4, as amended.  The returns have one entry per reward, in forward time order,
  and satisfy the backward recurrence \<open>R\<^sub>t = r\<^sub>t + \<gamma> \<sdot> R\<^sub>t\<^sub>+\<^sub>1\<close>, the return of the last
  step being its reward.  For the rewards \<open>[1, 1, 1]\<close> and \<open>\<gamma> = 0.97\<close> the returns before
  normalisation are \<open>[1 + 0.97 + 0.97\<^sup>2, 1 + 0.97, 1] = [2.9109, 1.97, 1]\<close>.
\<close>

theorem discounted_returns_recurrence:
  "length (discounted_returns rs) = length rs
   \<and> (\<forall>t < length rs. discounted_returns rs ! t
          = rs ! t + gamma * (if Suc t < length rs then discounted_returns rs ! Suc t else 0))
   \<and> discounted_returns [1, 1, 1] = [2.9109, 1.97, 1]"
proof -
  have "discounted_returns [1, 1, 1] = [2.9109, 1.97, 1]"
    by (simp add: discounted_returns_def gamma_def)
  then show ?thesis
    by (simp add: discounted_returns_spec returns_spec_length returns_spec_nth del: returns_spec.simps)
qed

text \<open>The recurrence at the rewards \<open>[1, 2, 3]\<close>.\<close>

theorem discounted_returns_recurrence_witness:
  "length (discounted_returns [1, 2, 3]) = 3
   \<and> discounted_returns [1, 2, 3] ! 2 = 3
   \<and> discounted_returns [1, 2, 3] ! 1 = 2 + gamma * discounted_returns [1, 2, 3] ! 2
   \<and> discounted_returns [1, 2, 3] ! 0 = 1 + gamma * discounted_returns [1, 2, 3] ! 1
   \<and> discounted_returns [1, 2, 3] = [5.7627, 4.91, 3]"
proof -
  have r: "discounted_returns [1, 2, 3] = [5.7627, 4.91, 3]"
    by (simp add: discounted_returns_def gamma_def)
  show ?thesis using discounted_returns_recurrence [of "[1, 2, 3]"]
    by (simp add: r gamma_def)
qed

text \<open>
  Claim C4 as it was stated gives \<open>2.9409\<close> for the first return of \<open>[1, 1, 1]\<close>; the
  code computes \<open>1 + 0.97 + 0.9409 = 2.9109\<close>.
\<close>

theorem discounted_returns_example_counterexample:
  "discounted_returns [1, 1, 1] \<noteq> [2.9409, 1.97, 1]"
  by (simp add: discounted_returns_def gamma_def)

subsection \<open>The edge indexes of versions 0 to 4\<close>

lemma version1_index:
  "index_edges ns (scan_pairs body_v1 ns) [] = Inr (map (col ns) (scan_pairs body_v1 ns))"
  using index_edges_ok [OF scan_v1_within, of ns "[]"] by simp

text \<open>
  Claim C6.  For every node list, every native edge index and all values of the two
  charge parameters, versions 1 to 4 return an edge index, every edge of version 1 is
  an edge of version 2, and every edge of version 3 is an edge of version 4.
\<close>

theorem policy_subsets:
  "\<exists>e1 e2 e3 e4.
     parse_obs_edge_index e 1 charge_delta max_charge = Inr e1
   \<and> parse_obs_edge_index e 2 charge_delta max_charge = Inr e2
   \<and> parse_obs_edge_index e 3 charge_delta max_charge = Inr e3
   \<and> parse_obs_edge_index e 4 charge_delta max_charge = Inr e4
   \<and> set e1 \<subseteq> set e2 \<and> set e3 \<subseteq> set e4"
proof -
  let ?ns = "nodes e"
  have v1: "parse_obs_edge_index e 1 charge_delta max_charge = Inr (map (col ?ns) (scan_pairs body_v1 ?ns))"
    by (simp add: parse_obs_edge_index_def version1_index)
  have v2: "parse_obs_edge_index e 2 charge_delta max_charge
              = Inr (map (col ?ns) (scan_pairs body_v1 ?ns) @ gcn_edge_idx e)"
    by (simp add: parse_obs_edge_index_def version1_index)
  have v3: "parse_obs_edge_index e 3 charge_delta max_charge = Inr (map (col ?ns) (scan_pairs body_v3 ?ns))"
    using index_edges_ok [OF scan_v3_within, of ?ns "[]"] by (simp add: parse_obs_edge_index_def)
  have v4: "parse_obs_edge_index e 4 charge_delta max_charge = Inr (map (col ?ns) (scan_pairs body_v4 ?ns))"
    using index_edges_ok [OF scan_v4_within, of ?ns "[]"] by (simp add: parse_obs_edge_index_def)
  have s34: "set (map (col ?ns) (scan_pairs body_v3 ?ns)) \<subseteq> set (map (col ?ns) (scan_pairs body_v4 ?ns))"
    using scan_v3_sub_v4 [of ?ns] by auto
  show ?thesis unfolding v1 v2 v3 v4 using s34 by auto
qed

lemma toy_v1: "parse_obs_edge_index toy_env 1 1 2 = Inr [(0, 0), (1, 1), (2, 2)]"
  by (simp add: parse_obs_edge_index_def toy_env_def scan_pairs_def body_v1_def self_loop_def)

lemma toy_v3: "parse_obs_edge_index toy_env 3 1 2 = Inr [(0, 1), (0, 2), (1, 0), (2, 0)]"
  by (simp add: parse_obs_edge_index_def toy_env_def scan_pairs_def body_v3_def grid_hop_def)

lemma toy_v4: "parse_obs_edge_index toy_env 4 1 2 = Inr [(0, 0), (0, 1), (0, 2), (1, 0), (1, 1), (2, 0), (2, 2)]"
  by (simp add: parse_obs_edge_index_def toy_env_def scan_pairs_def body_v4_def grid_hop_def)

lemma toy_v2: "parse_obs_edge_index toy_env 2 1 2 = Inr [(0, 0), (1, 1), (2, 2), (0, 1), (1, 0), (0, 2), (2, 0)]"
  by (simp add: parse_obs_edge_index_def toy_env_def scan_pairs_def body_v1_def self_loop_def)

text \<open>The four edge indexes on the three-node simulator.\<close>

theorem policy_subsets_witness:
  "set [(0, 0), (1, 1), (2, 2)] \<subseteq> set [(0, 0), (1, 1), (2, 2), (0, 1), (1, 0), (0, 2), (2, 0 :: nat)]
   \<and> set [(0, 1), (0, 2), (1, 0), (2, 0)]
       \<subseteq> set [(0, 0), (0, 1), (0, 2), (1, 0), (1, 1), (2, 0), (2, 2 :: nat)]
   \<and> parse_obs_edge_index toy_env 1 1 2 = Inr [(0, 0), (1, 1), (2, 2)]
   \<and> parse_obs_edge_index toy_env 4 1 2 = Inr [(0, 0), (0, 1), (0, 2), (1, 0), (1, 1), (2, 0), (2, 2)]"
  using policy_subsets [of toy_env 1 2] unfolding toy_v1 toy_v2 toy_v3 toy_v4 by auto

text \<open>
  Claim C7.  For a list of \<open>N\<close> pairwise different nodes, version 1 returns exactly the
  \<open>N\<close> edges \<open>(i, i)\<close>, one self-loop per node in node order, and version 0 returns the
  simulator's native edge index unchanged.
\<close>

theorem version1_self_loops_version0_native:
  assumes "distinct (nodes e)"
  shows "parse_obs_edge_index e 1 charge_delta max_charge
           = Inr (map (\<lambda>i. (i, i)) [0..<length (nodes e)])
       \<and> length (map (\<lambda>i. (i, i)) [0..<length (nodes e)]) = length (nodes e)
       \<and> parse_obs_edge_index e 0 charge_delta max_charge = Inr (gcn_edge_idx e)"
proof -
  have "parse_obs_edge_index e 1 charge_delta max_charge
          = Inr (map (col (nodes e)) (scan_pairs body_v1 (nodes e)))"
    by (simp add: parse_obs_edge_index_def version1_index)
  also have "\<dots> = Inr (map (\<lambda>i. (i, i)) [0..<length (nodes e)])"
    using assms by (simp add: scan_v1_distinct cols_v1_distinct del: map_map)
  finally show ?thesis by (simp add: parse_obs_edge_index_def)
qed

text \<open>
  The three-node simulator with four native directed edges: three self-loops under
  version 1, the four native edges under version 0.
\<close>

theorem version1_self_loops_version0_native_witness:
  "distinct (nodes toy_env)
   \<and> parse_obs_edge_index toy_env 1 1 2 = Inr [(0, 0), (1, 1), (2, 2)]
   \<and> parse_obs_edge_index toy_env 0 1 2 = Inr [(0, 1), (1, 0), (0, 2), (2, 0)]"
proof -
  have d: "distinct (nodes toy_env)" by (simp add: toy_env_def)
  have u: "[0..<length (nodes toy_env)] = [0, 1, 2]" by (simp add: toy_env_def upt_rec)
  have g: "gcn_edge_idx toy_env = [(0, 1), (1, 0), (0, 2), (2, 0)]" by (simp add: toy_env_def)
  show ?thesis using d version1_self_loops_version0_native [OF d, of 1 2] unfolding u g by simp
qed

section \<open>Properties of select_action\<close>

subsection \<open>The two loops\<close>

lemma gate_loop_Inr:
  "gate_loop lib c p js (cwz, zs, lpz) = Inr r \<Longrightarrow>
   r = (cwz @ map (\<lambda>i. c ! i) (filter (participates lib) js),
        zs @ map (\<lambda>i. \<not> participates lib i) js,
        lpz + (\<Sum>i\<leftarrow>js. if participates lib i then ln (p ! i) else ln (1 - p ! i)))"
proof (induction js arbitrary: cwz zs lpz)
  case Nil
  then show ?case by simp
next
  case (Cons j js)
  show ?case
  proof (cases "participates lib j")
    case True
    with Cons.prems have "j < length c"
      by (simp add: participates_def split: if_splits)
    with Cons.prems True
    have "gate_loop lib c p js (cwz @ [c ! j], zs @ [False], lpz + ln (p ! j)) = Inr r"
      by (simp add: participates_def)
    from Cons.IH [OF this] True show ?thesis by (simp add: add.assoc)
  next
    case False
    with Cons.prems
    have "gate_loop lib c p js (cwz, zs @ [True], lpz + ln (1 - p ! j)) = Inr r"
      by (simp add: participates_def)
    from Cons.IH [OF this] False show ?thesis by (simp add: add.assoc)
  qed
qed

lemma gate_loop_Inl:
  "gate_loop lib c p js st = Inl e \<Longrightarrow> e = IndexError"
proof (induction js arbitrary: st)
  case Nil
  then show ?case by simp
next
  case (Cons j js)
  obtain cwz zs lpz where st: "st = (cwz, zs, lpz)" by (cases st)
  from Cons.prems Cons.IH show ?case
    unfolding st by (auto split: if_splits)
qed

lemma gate_loop_char:
  "\<forall>i\<in>set js. i < length c \<Longrightarrow>
   gate_loop lib c p js (cwz, zs, lpz)
     = Inr (cwz @ map (\<lambda>i. c ! i) (filter (participates lib) js),
            zs @ map (\<lambda>i. \<not> participates lib i) js,
            lpz + (\<Sum>i\<leftarrow>js. if participates lib i then ln (p ! i) else ln (1 - p ! i)))"
proof (induction js arbitrary: cwz zs lpz)
  case Nil
  then show ?case by simp
next
  case (Cons j js)
  then have "j < length c" and "\<forall>i\<in>set js. i < length c" by simp_all
  with Cons.IH show ?case by (simp add: participates_def add.assoc)
qed

lemma gate_loop_all:
  assumes "length c = length p"
  shows "gate_loop lib c p [0..<length p] ([], [], 0)
           = Inr (participating_concentration lib c (length p),
                  map (\<lambda>i. \<not> participates lib i) [0..<length p],
                  gate_log_prob lib p)"
  using gate_loop_char [of "[0..<length p]" c lib p "[]" "[]" 0] assms
  by (simp add: participating_concentration_def gate_log_prob_def)

lemma gate_loop_returned:
  assumes "gate_loop lib c p [0..<length p] ([], [], 0) = Inr r"
  shows "r = (participating_concentration lib c (length p),
              map (\<lambda>i. \<not> participates lib i) [0..<length p],
              gate_log_prob lib p)"
  using gate_loop_Inr [OF assms] by (simp add: participating_concentration_def gate_log_prob_def)

lemma assemble_spread:
  "length (filter Not zs) + idx \<le> length a \<Longrightarrow>
   assemble zs (Some a) idx acc = Inr (acc @ spread zs (drop idx a))"
proof (induction zs arbitrary: idx acc)
  case Nil
  then show ?case by simp
next
  case (Cons z zs)
  show ?case
  proof (cases z)
    case True
    with Cons show ?thesis by simp
  next
    case False
    with Cons.prems have lt: "idx < length a" and "length (filter Not zs) + Suc idx \<le> length a"
      by simp_all
    from Cons.IH [OF this(2)] lt False show ?thesis
      by (simp add: Cons_nth_drop_Suc [symmetric])
  qed
qed

lemma assemble_all_zero:
  "filter Not zs = [] \<Longrightarrow> assemble zs da idx acc = Inr (acc @ replicate (length zs) 0)"
proof (induction zs arbitrary: acc)
  case Nil
  then show ?case by simp
next
  case (Cons z zs)
  then have z: "z" and "filter Not zs = []" by (simp_all split: if_splits)
  from Cons.IH [OF this(2), of "acc @ [0]"] z show ?case by simp
qed

lemma spread_length:
  "length (filter Not zs) \<le> length a \<Longrightarrow> length (spread zs a) = length zs"
  by (induction zs a rule: spread.induct) simp_all

lemma spread_sum:
  "length (filter Not zs) = length a \<Longrightarrow> sum_list (spread zs a) = sum_list a"
  by (induction zs a rule: spread.induct) simp_all

lemma spread_zero:
  "length (filter Not zs) \<le> length a \<Longrightarrow> i < length zs \<Longrightarrow> zs ! i \<Longrightarrow> spread zs a ! i = 0"
proof (induction zs a arbitrary: i rule: spread.induct)
  case (1 a)
  then show ?case by simp
next
  case (2 zs a)
  then show ?case by (cases i) simp_all
next
  case (3 zs)
  then show ?case by simp
next
  case (4 zs y a)
  then show ?case by (cases i) simp_all
qed

lemma spread_map:
  "spread (map (\<lambda>i. \<not> P i) js) (map f (filter P js)) = map (\<lambda>i. if P i then f i else 0) js"
  by (induction js) simp_all

lemma flags_count:
  "length (filter Not (map (\<lambda>i. \<not> P i) js)) = length (filter P js)"
  by (induction js) simp_all

lemma flags_none:
  "filter P js = [] \<Longrightarrow> filter Not (map (\<lambda>i. \<not> P i) js) = []"
  by (induction js) (simp_all split: if_splits)

lemma no_participant_iff:
  "participating_concentration lib c n = [] \<longleftrightarrow> (\<forall>i<n. \<not> participates lib i)"
  by (auto simp: participating_concentration_def filter_empty_conv)

lemma assemble_participating:
  assumes "length a = length (participating_concentration lib c n)"
  shows "assemble (map (\<lambda>i. \<not> participates lib i) [0..<n]) (Some a) 0 []
           = Inr (spread (map (\<lambda>i. \<not> participates lib i) [0..<n]) a)"
proof -
  have "length (filter Not (map (\<lambda>i. \<not> participates lib i) [0..<n])) + 0 \<le> length a"
    using assms flags_count [of "participates lib" "[0..<n]"]
    by (simp add: participating_concentration_def)
  from assemble_spread [OF this, of "[]"] show ?thesis by simp
qed

subsection \<open>The call as a whole\<close>

text \<open>
  The three ways a call ends once the first loop has returned.  \<open>drawn_point\<close> is the
  point handed to \<open>log_prob\<close>.
\<close>

lemma select_action_from_gate:
  assumes "gate_loop lib c p [0..<length p] ([], [], 0)
             = Inr (participating_concentration lib c (length p),
                    map (\<lambda>i. \<not> participates lib i) [0..<length p],
                    gate_log_prob lib p)"
  shows "select_action_from eval_mode lib (c, p, v) s =
     (if participating_concentration lib c (length p) = []
      then (Inr (replicate (length p) 0),
            s\<lparr> saved_actions := saved_actions s @ [(0 + gate_log_prob lib p, v)] \<rparr>)
      else if concentration_ok (participating_concentration lib c (length p))
              \<and> on_simplex (participating_concentration lib c (length p))
                   (drawn_point eval_mode lib (participating_concentration lib c (length p)))
      then (Inr (spread (map (\<lambda>i. \<not> participates lib i) [0..<length p])
                   (drawn_point eval_mode lib (participating_concentration lib c (length p)))),
            s\<lparr> means_concentration := means_concentration s
                   @ [np_mean (participating_concentration lib c (length p))],
               std_concentration := std_concentration s
                   @ [np_std (participating_concentration lib c (length p))],
               saved_actions := saved_actions s @
                 [(log_prob lib (participating_concentration lib c (length p))
                     (drawn_point eval_mode lib (participating_concentration lib c (length p)))
                   + gate_log_prob lib p, v)] \<rparr>)
      else (Inl ValueError,
            s\<lparr> means_concentration := means_concentration s
                   @ [np_mean (participating_concentration lib c (length p))],
               std_concentration := std_concentration s
                   @ [np_std (participating_concentration lib c (length p))] \<rparr>))"
proof (cases "participating_concentration lib c (length p) = []")
  case True
  then have "filter (participates lib) [0..<length p] = []"
    by (simp add: participating_concentration_def)
  then have "filter Not (map (\<lambda>i. \<not> participates lib i) [0..<length p]) = []"
    by (rule flags_none)
  from assemble_all_zero [OF this, of None 0 "[]"] assms True show ?thesis
    by (simp add: select_action_from_def Let_def)
next
  case False
  show ?thesis
  proof (cases "concentration_ok (participating_concentration lib c (length p))
              \<and> on_simplex (participating_concentration lib c (length p))
                   (drawn_point eval_mode lib (participating_concentration lib c (length p)))")
    case True
    then have "length (drawn_point eval_mode lib (participating_concentration lib c (length p)))
                 = length (participating_concentration lib c (length p))"
      by (simp add: on_simplex_def)
    from assemble_participating [OF this] assms False True show ?thesis
      by (simp add: select_action_from_def Let_def drawn_point_def)
  next
    case nok: False
    with assms False show ?thesis
      by (auto simp add: select_action_from_def Let_def drawn_point_def)
  qed
qed

lemma select_action_from_char:
  assumes "length c = length p"
  shows "select_action_from eval_mode lib (c, p, v) s =
     (if participating_concentration lib c (length p) = []
      then (Inr (replicate (length p) 0),
            s\<lparr> saved_actions := saved_actions s @ [(0 + gate_log_prob lib p, v)] \<rparr>)
      else if concentration_ok (participating_concentration lib c (length p))
              \<and> on_simplex (participating_concentration lib c (length p))
                   (drawn_point eval_mode lib (participating_concentration lib c (length p)))
      then (Inr (spread (map (\<lambda>i. \<not> participates lib i) [0..<length p])
                   (drawn_point eval_mode lib (participating_concentration lib c (length p)))),
            s\<lparr> means_concentration := means_concentration s
                   @ [np_mean (participating_concentration lib c (length p))],
               std_concentration := std_concentration s
                   @ [np_std (participating_concentration lib c (length p))],
               saved_actions := saved_actions s @
                 [(log_prob lib (participating_concentration lib c (length p))
                     (drawn_point eval_mode lib (participating_concentration lib c (length p)))
                   + gate_log_prob lib p, v)] \<rparr>)
      else (Inl ValueError,
            s\<lparr> means_concentration := means_concentration s
                   @ [np_mean (participating_concentration lib c (length p))],
               std_concentration := std_concentration s
                   @ [np_std (participating_concentration lib c (length p))] \<rparr>))"
  by (rule select_action_from_gate) (rule gate_loop_all [OF assms])

lemma select_action_from_ok:
  assumes "length c = length p"
    and "participating_concentration lib c (length p) \<noteq> []"
    and "concentration_ok (participating_concentration lib c (length p))"
    and "on_simplex (participating_concentration lib c (length p))
           (drawn_point eval_mode lib (participating_concentration lib c (length p)))"
  shows "select_action_from eval_mode lib (c, p, v) s =
     (Inr (spread (map (\<lambda>i. \<not> participates lib i) [0..<length p])
             (drawn_point eval_mode lib (participating_concentration lib c (length p)))),
      s\<lparr> means_concentration := means_concentration s
             @ [np_mean (participating_concentration lib c (length p))],
         std_concentration := std_concentration s
             @ [np_std (participating_concentration lib c (length p))],
         saved_actions := saved_actions s @
           [(log_prob lib (participating_concentration lib c (length p))
               (drawn_point eval_mode lib (participating_concentration lib c (length p)))
             + gate_log_prob lib p, v)] \<rparr>)"
  unfolding select_action_from_char [OF assms(1)] using assms(2-4) by simp

lemma select_action_from_none:
  assumes "length c = length p"
    and "participating_concentration lib c (length p) = []"
  shows "select_action_from eval_mode lib (c, p, v) s =
     (Inr (replicate (length p) 0),
      s\<lparr> saved_actions := saved_actions s @ [(0 + gate_log_prob lib p, v)] \<rparr>)"
  unfolding select_action_from_char [OF assms(1)] using assms(2) by simp

lemma select_action_from_rejected:
  assumes "length c = length p"
    and "participating_concentration lib c (length p) \<noteq> []"
    and "\<not> (concentration_ok (participating_concentration lib c (length p))
           \<and> on_simplex (participating_concentration lib c (length p))
                (drawn_point eval_mode lib (participating_concentration lib c (length p))))"
  shows "select_action_from eval_mode lib (c, p, v) s =
     (Inl ValueError,
      s\<lparr> means_concentration := means_concentration s
             @ [np_mean (participating_concentration lib c (length p))],
         std_concentration := std_concentration s
             @ [np_std (participating_concentration lib c (length p))] \<rparr>)"
  unfolding select_action_from_char [OF assms(1)] using assms(2-3) by simp

lemma select_action_from_returned:
  assumes "fst (select_action_from eval_mode lib (c, p, v) s) = Inr action"
  shows "(participating_concentration lib c (length p) = [] \<and> action = replicate (length p) 0)
       \<or> (participating_concentration lib c (length p) \<noteq> []
          \<and> on_simplex (participating_concentration lib c (length p))
               (drawn_point eval_mode lib (participating_concentration lib c (length p)))
          \<and> action = spread (map (\<lambda>i. \<not> participates lib i) [0..<length p])
               (drawn_point eval_mode lib (participating_concentration lib c (length p))))"
proof (cases "gate_loop lib c p [0..<length p] ([], [], 0)")
  case (Inl e)
  with assms show ?thesis by (simp add: select_action_from_def)
next
  case (Inr r)
  from gate_loop_returned [OF Inr] Inr
  have g: "gate_loop lib c p [0..<length p] ([], [], 0)
             = Inr (participating_concentration lib c (length p),
                    map (\<lambda>i. \<not> participates lib i) [0..<length p],
                    gate_log_prob lib p)"
    by simp
  from assms show ?thesis
    unfolding select_action_from_gate [OF g] by (auto split: if_splits)
qed

lemma eval_action_length: "length (eval_action cwz) = length cwz"
  by (simp add: eval_action_def)

lemma eval_action_sum: "sum_list (eval_action cwz) = sum_list cwz / (sum_list cwz + 1 / 10 ^ 16)"
proof -
  have "sum_list (map (\<lambda>c. c / k) cwz) = sum_list cwz / k" for k :: real
    by (induction cwz) (simp_all add: add_divide_distrib)
  then show ?thesis by (simp add: eval_action_def)
qed

lemma concentration_ok_sum: "concentration_ok c \<Longrightarrow> 0 \<le> sum_list c"
  by (induction c) (simp_all add: concentration_ok_def)

lemma eval_action_on_simplex:
  assumes ok: "concentration_ok cwz" and big: "1 / 10 ^ 10 \<le> sum_list cwz"
  shows "on_simplex cwz (eval_action cwz)"
proof -
  let ?S = "sum_list cwz"
  let ?e = "1 / 10 ^ 16 :: real"
  have pos: "0 < ?S + ?e" using big by (simp add: add_pos_pos)
  have "list_all (\<lambda>x. 0 \<le> x) (eval_action cwz)"
    using ok pos by (auto simp: eval_action_def concentration_ok_def list_all_iff intro!: divide_nonneg_pos less_imp_le)
  moreover have "?S / (?S + ?e) - 1 = - (?e / (?S + ?e))"
    using pos by (simp add: field_simps)
  moreover have "?e / (?S + ?e) < 1 / 10 ^ 6"
    using pos big by (simp add: field_simps)
  moreover have "0 \<le> ?e / (?S + ?e)" using pos by simp
  ultimately show ?thesis
    by (simp add: on_simplex_def eval_action_length eval_action_sum)
qed

lemma eval_spread:
  "spread (map (\<lambda>i. \<not> participates lib i) [0..<n]) (eval_action (participating_concentration lib c n))
     = map (\<lambda>i. if participates lib i
                 then c ! i / (sum_list (participating_concentration lib c n) + 1 / 10 ^ 16)
                 else 0) [0..<n]"
  using spread_map [of "participates lib" "[0..<n]"
      "\<lambda>i. c ! i / (sum_list (participating_concentration lib c n) + 1 / 10 ^ 16)"]
  by (simp add: eval_action_def participating_concentration_def comp_def)

subsection \<open>The action vector\<close>

text \<open>
  Claim C2.  Whenever a call returns an action vector, the vector has one entry per
  node, every abstaining node has exactly 0, the vector sums to 1 within \<open>10\<^sup>-\<^sup>5\<close> if at
  least one node participates, and it is all-zero if none does.  A call on vectors of
  equal length does return when no node participates, and when the participating
  concentrations are positive and the drawn point passes the library's simplex check;
  in evaluation mode that check passes as soon as the participating concentrations sum
  to at least \<open>10\<^sup>-\<^sup>1\<^sup>0\<close>.
\<close>

theorem select_action_vector:
  "(fst (select_action_from eval_mode lib (concentration, non_zero, v) s) = Inr action \<longrightarrow>
        length action = length non_zero
      \<and> (\<forall>i<length non_zero. \<not> participates lib i \<longrightarrow> action ! i = 0)
      \<and> ((\<exists>i<length non_zero. participates lib i) \<longrightarrow> \<bar>sum_list action - 1\<bar> \<le> 1 / 10 ^ 5)
      \<and> ((\<forall>i<length non_zero. \<not> participates lib i) \<longrightarrow> action = replicate (length non_zero) 0))
   \<and> (length concentration = length non_zero \<and> (\<forall>i<length non_zero. \<not> participates lib i) \<longrightarrow>
        fst (select_action_from eval_mode lib (concentration, non_zero, v) s)
          = Inr (replicate (length non_zero) 0))
   \<and> (length concentration = length non_zero
        \<and> concentration_ok (participating_concentration lib concentration (length non_zero))
        \<and> on_simplex (participating_concentration lib concentration (length non_zero))
             (drawn_point eval_mode lib (participating_concentration lib concentration (length non_zero)))
       \<longrightarrow> (\<exists>a. fst (select_action_from eval_mode lib (concentration, non_zero, v) s) = Inr a))
   \<and> (length concentration = length non_zero
        \<and> concentration_ok (participating_concentration lib concentration (length non_zero))
        \<and> 1 / 10 ^ 10 \<le> sum_list (participating_concentration lib concentration (length non_zero))
       \<longrightarrow> (\<exists>a. fst (select_action_from True lib (concentration, non_zero, v) s) = Inr a))"
proof -
  let ?n = "length non_zero"
  let ?cwz = "participating_concentration lib concentration ?n"
  let ?zs = "map (\<lambda>i. \<not> participates lib i) [0..<?n]"
  have returned: "length action = ?n
      \<and> (\<forall>i<?n. \<not> participates lib i \<longrightarrow> action ! i = 0)
      \<and> ((\<exists>i<?n. participates lib i) \<longrightarrow> \<bar>sum_list action - 1\<bar> \<le> 1 / 10 ^ 5)
      \<and> ((\<forall>i<?n. \<not> participates lib i) \<longrightarrow> action = replicate ?n 0)"
    if r: "fst (select_action_from eval_mode lib (concentration, non_zero, v) s) = Inr action"
  proof -
    let ?a = "drawn_point eval_mode lib ?cwz"
    from select_action_from_returned [OF r]
    consider (none) "?cwz = []" "action = replicate ?n 0"
      | (some) "?cwz \<noteq> []" "on_simplex ?cwz ?a" "action = spread ?zs ?a"
      by blast
    then show ?thesis
    proof cases
      case none
      from none(1) have all: "\<forall>i<?n. \<not> participates lib i" by (simp add: no_participant_iff)
      then have nex: "\<not> (\<exists>i<?n. participates lib i)" by blast
      have l: "length (replicate ?n (0::real)) = ?n"
        and z: "\<forall>i<?n. \<not> participates lib i \<longrightarrow> replicate ?n (0::real) ! i = 0"
        by simp_all
      show ?thesis unfolding none(2) using l z nex by blast
    next
      case some
      from some(1) have ex: "\<not> (\<forall>i<?n. \<not> participates lib i)" by (simp add: no_participant_iff)
      from some(2) have la: "length ?a = length ?cwz" and near: "\<bar>sum_list ?a - 1\<bar> < 1 / 10 ^ 6"
        by (simp_all add: on_simplex_def)
      have cnt: "length (filter Not ?zs) = length ?a"
        using la flags_count [of "participates lib" "[0..<?n]"]
        by (simp add: participating_concentration_def)
      have l: "length (spread ?zs ?a) = ?n"
        using spread_length [of ?zs ?a] cnt by simp
      have z: "\<forall>i<?n. \<not> participates lib i \<longrightarrow> spread ?zs ?a ! i = 0"
        using spread_zero [of ?zs ?a] cnt by simp
      have "sum_list (spread ?zs ?a) = sum_list ?a"
        using spread_sum [OF cnt] .
      with near have sm: "\<bar>sum_list (spread ?zs ?a) - 1\<bar> \<le> 1 / 10 ^ 5" by simp
      show ?thesis unfolding some(3) using l z sm ex by blast
    qed
  qed
  have none: "fst (select_action_from eval_mode lib (concentration, non_zero, v) s) = Inr (replicate ?n 0)"
    if "length concentration = ?n" "\<forall>i<?n. \<not> participates lib i"
  proof -
    from that(2) have "?cwz = []" by (simp add: no_participant_iff)
    then show ?thesis by (simp add: select_action_from_char [OF that(1)])
  qed
  have valid: "\<exists>a. fst (select_action_from m lib (concentration, non_zero, v) s) = Inr a"
    if "length concentration = ?n" "concentration_ok ?cwz" "on_simplex ?cwz (drawn_point m lib ?cwz)"
    for m
    using that(2,3) by (simp add: select_action_from_char [OF that(1)])
  have eval: "\<exists>a. fst (select_action_from True lib (concentration, non_zero, v) s) = Inr a"
    if "length concentration = ?n" "concentration_ok ?cwz" "1 / 10 ^ 10 \<le> sum_list ?cwz"
  proof -
    from eval_action_on_simplex [OF that(2,3)]
    have "on_simplex ?cwz (drawn_point True lib ?cwz)" by (simp add: drawn_point_def)
    from valid [OF that(1,2) this] show ?thesis .
  qed
  from returned none valid [of eval_mode] eval show ?thesis by blast
qed

lemma skip_second_participates: "participates skip_second i = (i \<noteq> 1)"
  by (simp add: participates_def skip_second_def)

lemma all_in_participates: "participates all_in i"
  by (simp add: participates_def all_in_def)

lemma all_out_participates: "\<not> participates all_out i"
  by (simp add: participates_def all_out_def)

lemma upt3: "[0..<3] = [0, 1, 2]" and upt1: "[0..<Suc 0] = [0]"
  by (simp_all add: upt_rec)

lemma skip_second_concentration:
  "participating_concentration skip_second [2, 3, 5] (length [1/2, 1/4, 1/2::real]) = [2, 5]"
  by (simp add: participating_concentration_def skip_second_participates upt3)

lemma skip_second_flags:
  "map (\<lambda>i. \<not> participates skip_second i) [0..<length [1/2, 1/4, 1/2::real]] = [False, True, False]"
  by (simp add: skip_second_participates upt3)

lemma skip_second_gate:
  "gate_log_prob skip_second [1/2, 1/4, 1/2] = ln (1/2) + ln (1 - 1/4) + ln (1/2)"
  by (simp add: gate_log_prob_def skip_second_participates upt3)

lemma skip_second_train:
  "select_action_from False skip_second ([2, 3, 5], [1/2, 1/4, 1/2], v) s
     = (Inr [1/2, 0, 1/2],
        s\<lparr> means_concentration := means_concentration s @ [np_mean [2, 5]],
           std_concentration := std_concentration s @ [np_std [2, 5]],
           saved_actions := saved_actions s @ [(- 1 + (ln (1/2) + ln (1 - 1/4) + ln (1/2)), v)] \<rparr>)"
proof -
  have dp: "drawn_point False skip_second [2, 5] = [1/2, 1/2]"
    by (simp add: drawn_point_def skip_second_def)
  have lp: "log_prob skip_second c a = - 1" for c a
    by (simp add: skip_second_def)
  have "select_action_from False skip_second ([2, 3, 5], [1/2, 1/4, 1/2], v) s
     = (Inr (spread [False, True, False] [1/2, 1/2]),
        s\<lparr> means_concentration := means_concentration s @ [np_mean [2, 5]],
           std_concentration := std_concentration s @ [np_std [2, 5]],
           saved_actions := saved_actions s
             @ [(log_prob skip_second [2, 5] [1/2, 1/2] + (ln (1/2) + ln (1 - 1/4) + ln (1/2)), v)] \<rparr>)"
    using select_action_from_ok [of "[2, 3, 5]" "[1/2, 1/4, 1/2]" skip_second False v s]
    unfolding skip_second_concentration skip_second_flags skip_second_gate dp
    by (simp add: concentration_ok_def on_simplex_def)
  then show ?thesis by (simp add: lp)
qed

lemma skip_second_eval:
  "fst (select_action_from True lib ([2, 3, 5], [1/2, 1/4, 1/2], v) s)
     = Inr [2 / (7 + 1 / 10 ^ 16), 0, 5 / (7 + 1 / 10 ^ 16)]"
  if "\<And>i. participates lib i = (i \<noteq> 1)"
proof -
  have pc: "participating_concentration lib [2, 3, 5] (length [1/2, 1/4, 1/2::real]) = [2, 5]"
    by (simp add: participating_concentration_def that upt3)
  have fl: "map (\<lambda>i. \<not> participates lib i) [0..<length [1/2, 1/4, 1/2::real]] = [False, True, False]"
    by (simp add: that upt3)
  have ok: "concentration_ok [2, 5]" by (simp add: concentration_ok_def)
  have sx: "on_simplex [2, 5] (drawn_point True lib [2, 5])"
    unfolding drawn_point_def if_True by (rule eval_action_on_simplex [OF ok]) simp
  have len: "length [2, 3, 5 :: real] = length [1/2, 1/4, 1/2 :: real]" by simp
  have ne: "participating_concentration lib [2, 3, 5] (length [1/2, 1/4, 1/2::real]) \<noteq> []"
    unfolding pc by simp
  have "fst (select_action_from True lib ([2, 3, 5], [1/2, 1/4, 1/2], v) s)
          = Inr (spread [False, True, False] (drawn_point True lib [2, 5]))"
    using select_action_from_ok [OF len ne, of True v s] ok sx unfolding pc fl by simp
  then show ?thesis by (simp add: drawn_point_def eval_action_def)
qed

text \<open>
  Three nodes, the second one abstaining: the returned vectors in training mode and in
  evaluation mode, and their sums.
\<close>

theorem select_action_vector_witness:
  "fst (select_action_from False skip_second ([2, 3, 5], [1/2, 1/4, 1/2], zero_value) (A2C_init toy_env))
        = Inr [1/2, 0, 1/2]
   \<and> \<bar>sum_list [1/2, 0, 1/2 :: real] - 1\<bar> \<le> 1 / 10 ^ 5
   \<and> fst (select_action_from True skip_second ([2, 3, 5], [1/2, 1/4, 1/2], zero_value) (A2C_init toy_env))
        = Inr [2 / (7 + 1 / 10 ^ 16), 0, 5 / (7 + 1 / 10 ^ 16)]
   \<and> \<bar>sum_list [2 / (7 + 1 / 10 ^ 16), 0, 5 / (7 + 1 / 10 ^ 16) :: real] - 1\<bar> \<le> 1 / 10 ^ 5
   \<and> participates skip_second 0 \<and> \<not> participates skip_second 1"
proof -
  have t: "fst (select_action_from False skip_second ([2, 3, 5], [1/2, 1/4, 1/2], zero_value) (A2C_init toy_env))
        = Inr [1/2, 0, 1/2]"
    by (simp add: skip_second_train)
  have e: "fst (select_action_from True skip_second ([2, 3, 5], [1/2, 1/4, 1/2], zero_value) (A2C_init toy_env))
        = Inr [2 / (7 + 1 / 10 ^ 16), 0, 5 / (7 + 1 / 10 ^ 16)]"
    by (rule skip_second_eval) (rule skip_second_participates)
  have p0: "\<exists>i<length [1/2, 1/4, 1/2 :: real]. participates skip_second i"
    by (rule exI [of _ 0]) (simp add: skip_second_participates)
  from select_action_vector [of False skip_second "[2, 3, 5]" "[1/2, 1/4, 1/2]" zero_value
         "A2C_init toy_env" "[1/2, 0, 1/2]"] t p0
  have st: "\<bar>sum_list [1/2, 0, 1/2 :: real] - 1\<bar> \<le> 1 / 10 ^ 5" by blast
  from select_action_vector [of True skip_second "[2, 3, 5]" "[1/2, 1/4, 1/2]" zero_value
         "A2C_init toy_env" "[2 / (7 + 1 / 10 ^ 16), 0, 5 / (7 + 1 / 10 ^ 16)]"] e p0
  have se: "\<bar>sum_list [2 / (7 + 1 / 10 ^ 16), 0, 5 / (7 + 1 / 10 ^ 16) :: real] - 1\<bar> \<le> 1 / 10 ^ 5"
    by blast
  have p: "participates skip_second 0" "\<not> participates skip_second 1"
    by (simp_all add: skip_second_participates)
  show ?thesis by (intro conjI t st e se p)
qed

subsection \<open>The recorded log-probability\<close>

text \<open>
  Claim C3.  On concentration and participation vectors of equal length (as
  \<open>A2C.forward\<close> returns them) a call records a step exactly when no node participates
  or the library accepts the participating concentrations and the drawn point.  The
  log-probability it records is the sum over all nodes of the gate term (\<open>ln p\<close> for a
  participating node, \<open>ln (1 - p)\<close> for an abstaining one) plus the Dirichlet
  log-probability of the drawn point over the participating concentrations; when no
  node participates the Dirichlet term is 0 and the call returns the all-zero action
  instead of raising.  A call that the library rejects raises and records nothing.
\<close>

theorem select_action_log_prob:
  assumes len: "length concentration = length non_zero"
  shows "(((\<forall>i<length non_zero. \<not> participates lib i)
           \<or> (concentration_ok (participating_concentration lib concentration (length non_zero))
              \<and> on_simplex (participating_concentration lib concentration (length non_zero))
                   (drawn_point eval_mode lib
                      (participating_concentration lib concentration (length non_zero)))))
          \<longrightarrow> saved_actions (snd (select_action_from eval_mode lib (concentration, non_zero, v) s))
               = saved_actions s @
                  [((if \<exists>i<length non_zero. participates lib i
                     then log_prob lib (participating_concentration lib concentration (length non_zero))
                            (if eval_mode
                             then eval_action (participating_concentration lib concentration (length non_zero))
                             else rsample lib (participating_concentration lib concentration (length non_zero)))
                     else 0)
                    + (\<Sum>i\<leftarrow>[0..<length non_zero].
                         if participates lib i then ln (non_zero ! i) else ln (1 - non_zero ! i)), v)])
     \<and> ((\<forall>i<length non_zero. \<not> participates lib i)
         \<longrightarrow> fst (select_action_from eval_mode lib (concentration, non_zero, v) s)
               = Inr (replicate (length non_zero) 0))
     \<and> (\<not> ((\<forall>i<length non_zero. \<not> participates lib i)
             \<or> (concentration_ok (participating_concentration lib concentration (length non_zero))
                \<and> on_simplex (participating_concentration lib concentration (length non_zero))
                     (drawn_point eval_mode lib
                        (participating_concentration lib concentration (length non_zero)))))
         \<longrightarrow> fst (select_action_from eval_mode lib (concentration, non_zero, v) s) = Inl ValueError
           \<and> saved_actions (snd (select_action_from eval_mode lib (concentration, non_zero, v) s))
               = saved_actions s)"
proof (cases "participating_concentration lib concentration (length non_zero) = []")
  case True
  then have none: "\<forall>i<length non_zero. \<not> participates lib i"
    by (simp add: no_participant_iff)
  then have nex: "\<not> (\<exists>i<length non_zero. participates lib i)" by blast
  have "select_action_from eval_mode lib (concentration, non_zero, v) s
          = (Inr (replicate (length non_zero) 0),
             s\<lparr> saved_actions := saved_actions s @
                  [(0 + (\<Sum>i\<leftarrow>[0..<length non_zero].
                         if participates lib i then ln (non_zero ! i) else ln (1 - non_zero ! i)), v)] \<rparr>)"
    using select_action_from_none [OF len True] by (simp add: gate_log_prob_def)
  then have sv: "saved_actions (snd (select_action_from eval_mode lib (concentration, non_zero, v) s))
               = saved_actions s @
                  [((if \<exists>i<length non_zero. participates lib i
                     then log_prob lib (participating_concentration lib concentration (length non_zero))
                            (if eval_mode
                             then eval_action (participating_concentration lib concentration (length non_zero))
                             else rsample lib (participating_concentration lib concentration (length non_zero)))
                     else 0)
                    + (\<Sum>i\<leftarrow>[0..<length non_zero].
                         if participates lib i then ln (non_zero ! i) else ln (1 - non_zero ! i)), v)]"
    and ft: "fst (select_action_from eval_mode lib (concentration, non_zero, v) s)
               = Inr (replicate (length non_zero) 0)"
    unfolding if_not_P [OF nex] by simp_all
  from none sv ft show ?thesis by blast
next
  case False
  then have some: "\<exists>i<length non_zero. participates lib i"
    by (simp add: no_participant_iff)
  then have ns: "\<not> (\<forall>i<length non_zero. \<not> participates lib i)" by blast
  let ?cwz = "participating_concentration lib concentration (length non_zero)"
  show ?thesis
  proof (cases "concentration_ok ?cwz \<and> on_simplex ?cwz (drawn_point eval_mode lib ?cwz)")
    case True
    then have ok: "concentration_ok ?cwz" and sx: "on_simplex ?cwz (drawn_point eval_mode lib ?cwz)"
      by simp_all
    have "saved_actions (snd (select_action_from eval_mode lib (concentration, non_zero, v) s))
            = saved_actions s @
                [(log_prob lib ?cwz (if eval_mode then eval_action ?cwz else rsample lib ?cwz)
                  + (\<Sum>i\<leftarrow>[0..<length non_zero].
                       if participates lib i then ln (non_zero ! i) else ln (1 - non_zero ! i)), v)]"
      unfolding select_action_from_ok [OF len False ok sx]
      by (simp add: gate_log_prob_def drawn_point_def)
    then have sv: "saved_actions (snd (select_action_from eval_mode lib (concentration, non_zero, v) s))
               = saved_actions s @
                  [((if \<exists>i<length non_zero. participates lib i
                     then log_prob lib ?cwz (if eval_mode then eval_action ?cwz else rsample lib ?cwz)
                     else 0)
                    + (\<Sum>i\<leftarrow>[0..<length non_zero].
                         if participates lib i then ln (non_zero ! i) else ln (1 - non_zero ! i)), v)]"
      unfolding if_P [OF some] .
    from ns True sv show ?thesis by blast
  next
    case rej: False
    have "select_action_from eval_mode lib (concentration, non_zero, v) s
            = (Inl ValueError,
               s\<lparr> means_concentration := means_concentration s @ [np_mean ?cwz],
                  std_concentration := std_concentration s @ [np_std ?cwz] \<rparr>)"
      by (rule select_action_from_rejected [OF len False rej])
    then have "fst (select_action_from eval_mode lib (concentration, non_zero, v) s) = Inl ValueError"
      and "saved_actions (snd (select_action_from eval_mode lib (concentration, non_zero, v) s))
             = saved_actions s"
      by simp_all
    with ns rej show ?thesis by blast
  qed
qed

text \<open>
  Three nodes: the second one abstaining, and all three abstaining; and a single node
  whose sample the library rejects.
\<close>

theorem select_action_log_prob_witness:
  "length [2, 3, 5 :: real] = length [1/2, 1/4, 1/2 :: real]
   \<and> saved_actions (snd (select_action_from False skip_second ([2, 3, 5], [1/2, 1/4, 1/2], zero_value)
                           (A2C_init toy_env)))
       = [(- 1 + (ln (1/2) + ln (1 - 1/4) + ln (1/2)), zero_value)]
   \<and> saved_actions (snd (select_action_from False all_out ([2, 3, 5], [1/2, 1/4, 1/2], zero_value)
                           (A2C_init toy_env)))
       = [(0 + (ln (1 - 1/2) + ln (1 - 1/4) + ln (1 - 1/2)), zero_value)]
   \<and> fst (select_action_from False all_out ([2, 3, 5], [1/2, 1/4, 1/2], zero_value) (A2C_init toy_env))
       = Inr [0, 0, 0]
   \<and> fst (select_action_from False skip_second_other ([2, 3, 5], [1/2, 1/4, 1/2], zero_value)
             (A2C_init toy_env))
       = Inl ValueError
   \<and> saved_actions (snd (select_action_from False skip_second_other ([2, 3, 5], [1/2, 1/4, 1/2], zero_value)
                           (A2C_init toy_env)))
       = []"
proof -
  have len: "length [2, 3, 5 :: real] = length [1/2, 1/4, 1/2 :: real]" by simp
  have r3: "replicate 3 (0::real) = [0, 0, 0]" by (simp add: numeral_3_eq_3)
  have out: "\<forall>i<length [1/2, 1/4, 1/2 :: real]. \<not> participates all_out i"
    by (simp add: all_out_participates)
  then have nex: "\<not> (\<exists>i<length [1/2, 1/4, 1/2 :: real]. participates all_out i)" by blast
  note o = select_action_log_prob [OF len, of all_out False zero_value "A2C_init toy_env"]
  from o out have o1: "saved_actions (snd (select_action_from False all_out
         ([2, 3, 5], [1/2, 1/4, 1/2], zero_value) (A2C_init toy_env)))
       = saved_actions (A2C_init toy_env) @
          [((if \<exists>i<length [1/2, 1/4, 1/2 :: real]. participates all_out i
             then log_prob all_out (participating_concentration all_out [2, 3, 5] (length [1/2, 1/4, 1/2 :: real]))
                    (if False
                     then eval_action (participating_concentration all_out [2, 3, 5] (length [1/2, 1/4, 1/2 :: real]))
                     else rsample all_out (participating_concentration all_out [2, 3, 5] (length [1/2, 1/4, 1/2 :: real])))
             else 0)
            + (\<Sum>i\<leftarrow>[0..<length [1/2, 1/4, 1/2 :: real]].
                 if participates all_out i then ln ([1/2, 1/4, 1/2] ! i) else ln (1 - [1/2, 1/4, 1/2] ! i)),
            zero_value)]"
    by blast
  have o1': "saved_actions (snd (select_action_from False all_out
         ([2, 3, 5], [1/2, 1/4, 1/2], zero_value) (A2C_init toy_env)))
       = [(0 + (ln (1 - 1/2) + ln (1 - 1/4) + ln (1 - 1/2)), zero_value)]"
    unfolding o1 by (simp add: all_out_participates upt3 A2C_init_def)
  from o out have "fst (select_action_from False all_out ([2, 3, 5], [1/2, 1/4, 1/2], zero_value)
         (A2C_init toy_env)) = Inr (replicate (length [1/2, 1/4, 1/2 :: real]) 0)"
    by blast
  then have o2: "fst (select_action_from False all_out ([2, 3, 5], [1/2, 1/4, 1/2], zero_value)
         (A2C_init toy_env)) = Inr [0, 0, 0]"
    by (simp add: r3)
  have t: "saved_actions (snd (select_action_from False skip_second ([2, 3, 5], [1/2, 1/4, 1/2], zero_value)
                           (A2C_init toy_env)))
       = [(- 1 + (ln (1/2) + ln (1 - 1/4) + ln (1/2)), zero_value)]"
    by (simp add: skip_second_train A2C_init_def)
  have po: "participates skip_second_other i = (i \<noteq> 1)" for i
    by (simp add: participates_def skip_second_other_def)
  have pc: "participating_concentration skip_second_other [2, 3, 5] (length [1/2, 1/4, 1/2::real]) = [2, 5]"
    by (simp add: participating_concentration_def po upt3)
  have some: "\<not> (\<forall>i<length [1/2, 1/4, 1/2 :: real]. \<not> participates skip_second_other i)"
    by (auto simp: po intro: exI [of _ 0])
  have rej: "\<not> on_simplex (participating_concentration skip_second_other [2, 3, 5] (length [1/2, 1/4, 1/2::real]))
           (drawn_point False skip_second_other
              (participating_concentration skip_second_other [2, 3, 5] (length [1/2, 1/4, 1/2::real])))"
    unfolding pc by (simp add: drawn_point_def skip_second_other_def on_simplex_def)
  note x = select_action_log_prob [OF len, of skip_second_other False zero_value "A2C_init toy_env"]
  from x some rej
  have x1: "fst (select_action_from False skip_second_other ([2, 3, 5], [1/2, 1/4, 1/2], zero_value)
             (A2C_init toy_env)) = Inl ValueError"
    and "saved_actions (snd (select_action_from False skip_second_other
            ([2, 3, 5], [1/2, 1/4, 1/2], zero_value) (A2C_init toy_env)))
          = saved_actions (A2C_init toy_env)"
    by blast+
  then have x2: "saved_actions (snd (select_action_from False skip_second_other
            ([2, 3, 5], [1/2, 1/4, 1/2], zero_value) (A2C_init toy_env))) = []"
    by (simp add: A2C_init_def)
  show ?thesis by (intro conjI len t o1' o2 x1 x2)
qed

subsection \<open>Evaluation mode\<close>

lemma eval_mode_result:
  assumes len: "length c = length p"
  shows "fst (select_action_from True lib (c, p, v) s) =
     (if participating_concentration lib c (length p) = []
         \<or> (concentration_ok (participating_concentration lib c (length p))
            \<and> on_simplex (participating_concentration lib c (length p))
                 (eval_action (participating_concentration lib c (length p))))
      then Inr (map (\<lambda>i. if participates lib i
                          then c ! i / (sum_list (participating_concentration lib c (length p)) + 1 / 10 ^ 16)
                          else 0) [0..<length p])
      else Inl ValueError)"
proof (cases "participating_concentration lib c (length p) = []")
  case True
  then have "\<forall>i<length p. \<not> participates lib i" by (simp add: no_participant_iff)
  then have "map (\<lambda>i. if participates lib i
                        then c ! i / (sum_list (participating_concentration lib c (length p)) + 1 / 10 ^ 16)
                        else 0) [0..<length p] = replicate (length p) 0"
    by (intro nth_equalityI) simp_all
  with True show ?thesis by (simp add: select_action_from_none [OF len True])
next
  case False
  show ?thesis
    unfolding select_action_from_char [OF len]
    using False by (simp add: drawn_point_def eval_spread)
qed

text \<open>
  Claim C8, as amended.  In evaluation mode two calls with the same concentration and
  participation inputs and the same participation draws end in the same way, whatever
  the Dirichlet sampler, the recorded value and the buffers are: they return the same
  action vector, or both raise.  In a returned vector a participating node has its
  concentration divided by the guarded sum of the participating concentrations
  (\<open>c / (c.sum() + 1e-16)\<close>), an abstaining node 0.  The call returns when no node
  participates, and when the participating concentrations are positive and sum to at
  least \<open>10\<^sup>-\<^sup>1\<^sup>0\<close>.
\<close>

theorem eval_mode_deterministic:
  assumes len: "length concentration = length non_zero"
    and same: "\<forall>i<length non_zero. participates lib1 i = participates lib2 i"
  shows "fst (select_action_from True lib1 (concentration, non_zero, v1) s1)
           = fst (select_action_from True lib2 (concentration, non_zero, v2) s2)
       \<and> (fst (select_action_from True lib1 (concentration, non_zero, v1) s1) = Inr action
            \<longrightarrow> action
                = map (\<lambda>i. if participates lib1 i
                            then concentration ! i
                                 / (sum_list (participating_concentration lib1 concentration (length non_zero))
                                    + 1 / 10 ^ 16)
                            else 0) [0..<length non_zero])
       \<and> ((\<forall>i<length non_zero. \<not> participates lib1 i)
           \<or> (concentration_ok (participating_concentration lib1 concentration (length non_zero))
              \<and> 1 / 10 ^ 10 \<le> sum_list (participating_concentration lib1 concentration (length non_zero)))
            \<longrightarrow> (\<exists>a. fst (select_action_from True lib1 (concentration, non_zero, v1) s1) = Inr a))"
proof -
  let ?n = "length non_zero"
  have f: "filter (participates lib1) [0..<?n] = filter (participates lib2) [0..<?n]"
    using same by (intro filter_cong) simp_all
  then have pc: "participating_concentration lib1 concentration ?n
          = participating_concentration lib2 concentration ?n"
    by (simp add: participating_concentration_def)
  have m: "map (\<lambda>i. if participates lib1 i
                   then concentration ! i
                        / (sum_list (participating_concentration lib2 concentration ?n) + 1 / 10 ^ 16)
                   else 0) [0..<?n]
      = map (\<lambda>i. if participates lib2 i
                   then concentration ! i
                        / (sum_list (participating_concentration lib2 concentration ?n) + 1 / 10 ^ 16)
                   else 0) [0..<?n]"
  proof (rule map_cong)
    show "[0..<?n] = [0..<?n]" by simp
  next
    fix i assume "i \<in> set [0..<?n]"
    then have "participates lib1 i = participates lib2 i" using same by simp
    then show "(if participates lib1 i
                then concentration ! i
                     / (sum_list (participating_concentration lib2 concentration ?n) + 1 / 10 ^ 16)
                else 0)
             = (if participates lib2 i
                then concentration ! i
                     / (sum_list (participating_concentration lib2 concentration ?n) + 1 / 10 ^ 16)
                else 0)"
      by simp
  qed
  have eq: "fst (select_action_from True lib1 (concentration, non_zero, v1) s1)
           = fst (select_action_from True lib2 (concentration, non_zero, v2) s2)"
    unfolding eval_mode_result [OF len] pc m by (rule refl)
  have val: "action
                = map (\<lambda>i. if participates lib1 i
                            then concentration ! i
                                 / (sum_list (participating_concentration lib1 concentration ?n) + 1 / 10 ^ 16)
                            else 0) [0..<?n]"
    if "fst (select_action_from True lib1 (concentration, non_zero, v1) s1) = Inr action"
    using that unfolding eval_mode_result [OF len] by (simp split: if_splits)
  have ret: "\<exists>a. fst (select_action_from True lib1 (concentration, non_zero, v1) s1) = Inr a"
    if "(\<forall>i<?n. \<not> participates lib1 i)
           \<or> (concentration_ok (participating_concentration lib1 concentration ?n)
              \<and> 1 / 10 ^ 10 \<le> sum_list (participating_concentration lib1 concentration ?n))"
  proof -
    from that have "participating_concentration lib1 concentration ?n = []
         \<or> (concentration_ok (participating_concentration lib1 concentration ?n)
            \<and> on_simplex (participating_concentration lib1 concentration ?n)
                 (eval_action (participating_concentration lib1 concentration ?n)))"
      using eval_action_on_simplex no_participant_iff by blast
    then show ?thesis unfolding eval_mode_result [OF len] by simp
  qed
  from eq val ret show ?thesis by blast
qed

text \<open>Two different samplers with the same draws, on different agents.\<close>

theorem eval_mode_deterministic_witness:
  "length [2, 3, 5 :: real] = length [1/2, 1/4, 1/2 :: real]
   \<and> participates skip_second 0 = participates skip_second_other 0
   \<and> participates skip_second 1 = participates skip_second_other 1
   \<and> participates skip_second 2 = participates skip_second_other 2
   \<and> fst (select_action_from True skip_second ([2, 3, 5], [1/2, 1/4, 1/2], zero_value) (A2C_init toy_env))
       = fst (select_action_from True skip_second_other ([2, 3, 5], [1/2, 1/4, 1/2], zero_value)
               (append_reward 1 (A2C_init toy_env)))
   \<and> fst (select_action_from True skip_second ([2, 3, 5], [1/2, 1/4, 1/2], zero_value) (A2C_init toy_env))
       = Inr [2 / (7 + 1 / 10 ^ 16), 0, 5 / (7 + 1 / 10 ^ 16)]"
proof -
  have len: "length [2, 3, 5 :: real] = length [1/2, 1/4, 1/2 :: real]" by simp
  have same3: "participates skip_second i = participates skip_second_other i" for i
    by (simp add: participates_def skip_second_def skip_second_other_def)
  then have same: "\<forall>i<length [1/2, 1/4, 1/2 :: real]. participates skip_second i = participates skip_second_other i"
    by blast
  note e = eval_mode_deterministic [OF len same, of zero_value "A2C_init toy_env" zero_value
        "append_reward 1 (A2C_init toy_env)"]
  from e have e1: "fst (select_action_from True skip_second ([2, 3, 5], [1/2, 1/4, 1/2], zero_value) (A2C_init toy_env))
       = fst (select_action_from True skip_second_other ([2, 3, 5], [1/2, 1/4, 1/2], zero_value)
               (append_reward 1 (A2C_init toy_env)))"
    by (rule conjunct1)
  have e2: "fst (select_action_from True skip_second ([2, 3, 5], [1/2, 1/4, 1/2], zero_value) (A2C_init toy_env))
       = Inr [2 / (7 + 1 / 10 ^ 16), 0, 5 / (7 + 1 / 10 ^ 16)]"
    by (rule skip_second_eval) (rule skip_second_participates)
  show ?thesis
    by (intro conjI len same3 e1 e2)
qed

text \<open>
  Claim C8 as it was stated gives a participating node the Dirichlet mean.  With one
  participating node of concentration \<open>2 \<sdot> 10\<^sup>-\<^sup>1\<^sup>0\<close> the call returns (the library accepts
  a sum that is off 1 by less than \<open>10\<^sup>-\<^sup>6\<close>), and the node gets \<open>2000000/2000001\<close>
  where the mean is 1.
\<close>

theorem eval_mode_mean_counterexample:
  "fst (select_action_from True all_in ([2 / 10 ^ 10], [1/2], zero_value) (A2C_init toy_env))
     = Inr [2000000 / 2000001]
   \<and> dirichlet_mean [2 / 10 ^ 10] = [1]
   \<and> [2000000 / 2000001] \<noteq> dirichlet_mean [2 / 10 ^ 10]"
proof -
  have len: "length [2 / 10 ^ 10 :: real] = length [1/2 :: real]" by simp
  have pc: "participating_concentration all_in [2 / 10 ^ 10] (length [1/2::real]) = [2 / 10 ^ 10]"
    by (simp add: participating_concentration_def all_in_participates upt1)
  have ok: "concentration_ok [2 / 10 ^ 10]" by (simp add: concentration_ok_def)
  have "on_simplex [2 / 10 ^ 10] (eval_action [2 / 10 ^ 10])"
    by (rule eval_action_on_simplex [OF ok]) simp
  with ok have c: "participating_concentration all_in [2 / 10 ^ 10] (length [1/2::real]) = []
         \<or> (concentration_ok (participating_concentration all_in [2 / 10 ^ 10] (length [1/2::real]))
            \<and> on_simplex (participating_concentration all_in [2 / 10 ^ 10] (length [1/2::real]))
                 (eval_action (participating_concentration all_in [2 / 10 ^ 10] (length [1/2::real]))))"
    unfolding pc by simp
  have "fst (select_action_from True all_in ([2 / 10 ^ 10], [1/2], zero_value) (A2C_init toy_env))
          = Inr (map (\<lambda>i. if participates all_in i
                          then [2 / 10 ^ 10] ! i / (sum_list [2 / 10 ^ 10] + 1 / 10 ^ 16)
                          else 0) [0..<length [1/2::real]])"
    using eval_mode_result [OF len, of all_in zero_value "A2C_init toy_env"] c unfolding pc
    by (simp only: if_True)
  then have r: "fst (select_action_from True all_in ([2 / 10 ^ 10], [1/2], zero_value) (A2C_init toy_env))
     = Inr [2000000 / 2000001]"
    by (simp add: all_in_participates upt1)
  have m: "dirichlet_mean [2 / 10 ^ 10] = [1]" by (simp add: dirichlet_mean_def)
  have "[2000000 / 2000001 :: real] \<noteq> [1]" by simp
  with r m show ?thesis by simp
qed

lemma softplus_onto:
  assumes "0 < y"
  shows "softplus (ln (exp y - 1)) = y"
proof -
  from assms have "0 < exp y - 1" by simp
  then show ?thesis by (simp add: softplus_def)
qed

text \<open>Such a concentration is a value of \<open>softplus a + jitter\<close>.\<close>

lemma small_concentration_reachable:
  "\<exists>a. softplus a + jitter = 2 / 10 ^ 10"
proof -
  have "0 < (2 / 10 ^ 10 - jitter :: real)" by (simp add: jitter_def)
  from softplus_onto [OF this]
  have "softplus (ln (exp (2 / 10 ^ 10 - jitter) - 1)) + jitter = 2 / 10 ^ 10"
    by simp
  then show ?thesis by (rule exI)
qed

section \<open>Properties of the networks and of training_step\<close>

subsection \<open>Shapes\<close>

lemma and_then_Inr:
  "and_then m f = Inr y \<longleftrightarrow> (\<exists>x. m = Inr x \<and> f x = Inr y)"
  by (cases m) (simp_all add: and_then_def)

lemma and_then_Inl: "m = Inl e \<Longrightarrow> and_then m f = Inl e"
  by (simp add: and_then_def)

lemma and_then_step: "m = Inr x \<Longrightarrow> and_then m f = f x"
  by (simp add: and_then_def)

lemma elementwise_shape:
  "ncols (elementwise f X) = ncols X" "length (rows (elementwise f X)) = length (rows X)"
  by (simp_all add: elementwise_def)

lemma Linear_Inr:
  "Linear l X = Inr Y \<longleftrightarrow>
     ncols X = in_features l \<and> Y = \<lparr> ncols = out_features l, rows = map (linear_row l) (rows X) \<rparr>"
  by (auto simp: Linear_def)

lemma GCNConv_Inr:
  "GCNConv g X ei = Inr Y \<Longrightarrow>
     ncols X = gcn_in g \<and> ncols Y = gcn_out g \<and> length (rows Y) = length (rows X)"
  by (auto simp: GCNConv_def split: if_splits)

lemma GCNConv_ok:
  "edges_in_range ei (length (rows X)) \<Longrightarrow> ncols X = gcn_in g \<Longrightarrow>
   \<exists>Y. GCNConv g X ei = Inr Y"
  by (simp add: GCNConv_def)

lemma cat_dim1_Inr:
  "cat_dim1 A B = Inr C \<Longrightarrow>
     length (rows A) = length (rows B) \<and> ncols C = ncols A + ncols B
     \<and> length (rows C) = length (rows A)"
  by (auto simp: cat_dim1_def split: if_splits)

lemma cat_dim1_ok:
  "length (rows A) = length (rows B) \<Longrightarrow> \<exists>C. cat_dim1 A B = Inr C"
  by (simp add: cat_dim1_def)

lemma EdgeConv_message_Inr:
  assumes "EdgeConv_message ec x_i x_j ea = Inr Y"
  shows "ncols x_i + ncols x_j + ncols ea = in_features (mlp_first ec)"
    and "ncols Y = out_features (mlp_second ec)"
proof -
  from assms obtain a b h where a: "cat_dim1 x_i x_j = Inr a" and b: "cat_dim1 a ea = Inr b"
    and h: "Linear (mlp_first ec) b = Inr h" and y: "Linear (mlp_second ec) (elementwise relu h) = Inr Y"
    by (auto simp: EdgeConv_message_def and_then_Inr)
  from cat_dim1_Inr [OF a] cat_dim1_Inr [OF b] h
  show "ncols x_i + ncols x_j + ncols ea = in_features (mlp_first ec)"
    by (simp add: Linear_Inr)
  from y show "ncols Y = out_features (mlp_second ec)"
    by (auto simp: Linear_Inr)
qed

lemma EdgeConv_message_ok:
  assumes "length (rows x_i) = length (rows x_j)" and "length (rows x_j) = length (rows ea)"
    and "ncols x_i + ncols x_j + ncols ea = in_features (mlp_first ec)"
    and "out_features (mlp_first ec) = in_features (mlp_second ec)"
  shows "\<exists>Y. EdgeConv_message ec x_i x_j ea = Inr Y"
  using assms
  by (simp add: EdgeConv_message_def cat_dim1_def Linear_def and_then_def elementwise_def)

lemma EdgeConv_Inr:
  assumes "EdgeConv ec X ei ea = Inr Y"
  shows "ncols X + ncols X + ncols ea = in_features (mlp_first ec)"
    and "ncols Y = out_features (mlp_second ec)"
    and "length (rows Y) = length (rows X)"
proof -
  from assms obtain msgs where
    m: "EdgeConv_message ec \<lparr> ncols = ncols X, rows = map (\<lambda>e. rows X ! snd e) ei \<rparr>
          \<lparr> ncols = ncols X, rows = map (\<lambda>e. rows X ! fst e) ei \<rparr> ea = Inr msgs"
    and y: "Y = aggregate_max ei msgs (length (rows X))"
    by (auto simp: EdgeConv_def Let_def and_then_Inr split: if_splits)
  from EdgeConv_message_Inr(1) [OF m]
  show "ncols X + ncols X + ncols ea = in_features (mlp_first ec)" by simp
  from EdgeConv_message_Inr(2) [OF m] y
  show "ncols Y = out_features (mlp_second ec)" by (simp add: aggregate_max_def)
  from y show "length (rows Y) = length (rows X)" by (simp add: aggregate_max_def)
qed

lemma EdgeConv_ok:
  assumes "edges_in_range ei (length (rows X))" and "length (rows ea) = length ei"
    and "ncols X + ncols X + ncols ea = in_features (mlp_first ec)"
    and "out_features (mlp_first ec) = in_features (mlp_second ec)"
  shows "\<exists>Y. EdgeConv ec X ei ea = Inr Y"
proof -
  have "\<exists>Y. EdgeConv_message ec \<lparr> ncols = ncols X, rows = map (\<lambda>e. rows X ! snd e) ei \<rparr>
          \<lparr> ncols = ncols X, rows = map (\<lambda>e. rows X ! fst e) ei \<rparr> ea = Inr Y"
    using assms by (intro EdgeConv_message_ok) simp_all
  with assms(1) show ?thesis
    by (auto simp: EdgeConv_def Let_def and_then_def)
qed

text \<open>
  A forward pass that returns has passed \<open>EdgeConv.message\<close>: twice the width of the
  node features plus the width of the edge features is \<open>3 * T\<close>, and the node features
  have width \<open>in_channels\<close>.  Its hidden output has one row per node and 32 columns.
\<close>

lemma gnn_hidden_Inr:
  assumes "gnn_hidden net d = Inr h"
  shows "ncols (data_x d) = in_channels net"
    and "ncols (data_x d) + ncols (data_x d) + ncols (data_edge_attr d) = net_T net * 3"
    and "ncols h = 32"
    and "length (rows h) = length (rows (data_x d))"
proof -
  from assms obtain c1 e1 out_1c c2 c3 out_3c h1 h2 h3 where
    c1: "GCNConv (conv1 net) (data_x d) (data_edge_index d) = Inr c1"
    and e1: "EdgeConv (econv1 net) (data_x d) (data_edge_index d) (data_edge_attr d) = Inr e1"
    and c3: "GCNConv (conv3 net) (elementwise relu c2) (data_edge_index d) = Inr c3"
    and o3: "cat_dim1 (data_x d) (elementwise relu c3) = Inr out_3c"
    and h1: "Linear (lin1 net) out_3c = Inr h1"
    and h2: "Linear (lin2 net) (elementwise softplus h1) = Inr h2"
    and h3: "Linear (lin3 net) (elementwise softplus h2) = Inr h3"
    and h: "h = elementwise softplus h3"
    unfolding gnn_hidden_def and_then_Inr by blast
  from GCNConv_Inr [OF c1] show "ncols (data_x d) = in_channels net"
    by (simp add: conv1_def)
  from EdgeConv_Inr(1) [OF e1]
  show "ncols (data_x d) + ncols (data_x d) + ncols (data_edge_attr d) = net_T net * 3"
    by (simp add: econv1_def)
  from h3 h show "ncols h = 32" by (auto simp: Linear_Inr lin3_def elementwise_shape)
  from h1 h2 h3 h cat_dim1_Inr [OF o3]
  show "length (rows h) = length (rows (data_x d))"
    by (auto simp: Linear_Inr elementwise_def)
qed

lemma gnn_hidden_ok:
  assumes range: "edges_in_range (data_edge_index d) (length (rows (data_x d)))"
    and attr: "length (rows (data_edge_attr d)) = length (data_edge_index d)"
    and wx: "ncols (data_x d) = in_channels net"
    and we: "ncols (data_x d) + ncols (data_x d) + ncols (data_edge_attr d) = net_T net * 3"
  shows "\<exists>h. gnn_hidden net d = Inr h"
proof -
  let ?ei = "data_edge_index d"
  obtain c1 where c1: "GCNConv (conv1 net) (data_x d) ?ei = Inr c1"
    using GCNConv_ok [OF range, of "conv1 net"] wx by (auto simp: conv1_def)
  obtain e1 where e1: "EdgeConv (econv1 net) (data_x d) ?ei (data_edge_attr d) = Inr e1"
    using EdgeConv_ok [OF range attr, of "econv1 net"] we by (auto simp: econv1_def)
  from GCNConv_Inr [OF c1] EdgeConv_Inr [OF e1]
  have s1: "length (rows c1) = length (rows e1)" "ncols c1 = hidden_channels net"
    "ncols e1 = hidden_channels net" "length (rows c1) = length (rows (data_x d))"
    by (simp_all add: conv1_def econv1_def)
  obtain o1 where o1: "cat_dim1 (elementwise relu c1) (elementwise relu e1) = Inr o1"
    using cat_dim1_ok [of "elementwise relu c1" "elementwise relu e1"] s1
    by (auto simp: elementwise_shape)
  from cat_dim1_Inr [OF o1] s1
  have s2: "ncols o1 = hidden_channels net * 2" "length (rows o1) = length (rows (data_x d))"
    by (simp_all add: elementwise_shape)
  obtain c2 where c2: "GCNConv (conv2 net) o1 ?ei = Inr c2"
    using GCNConv_ok [of ?ei o1 "conv2 net"] range s2 by (auto simp: conv2_def)
  from GCNConv_Inr [OF c2] s2
  have s3: "ncols c2 = hidden_channels net" "length (rows c2) = length (rows (data_x d))"
    by (simp_all add: conv2_def)
  obtain c3 where c3: "GCNConv (conv3 net) (elementwise relu c2) ?ei = Inr c3"
    using GCNConv_ok [of ?ei "elementwise relu c2" "conv3 net"] range s3
    by (auto simp: conv3_def elementwise_shape)
  from GCNConv_Inr [OF c3] s3
  have s4: "ncols c3 = in_channels net" "length (rows c3) = length (rows (data_x d))"
    by (simp_all add: conv3_def elementwise_shape)
  obtain o3 where o3: "cat_dim1 (data_x d) (elementwise relu c3) = Inr o3"
    using cat_dim1_ok [of "data_x d" "elementwise relu c3"] s4
    by (auto simp: elementwise_shape)
  from cat_dim1_Inr [OF o3] s4 wx
  have s5: "ncols o3 = in_channels net * 2" by (simp add: elementwise_shape)
  obtain h1 where h1: "Linear (lin1 net) o3 = Inr h1" and n1: "ncols h1 = in_channels net"
    using s5 by (simp add: Linear_def lin1_def)
  obtain h2 where h2: "Linear (lin2 net) (elementwise softplus h1) = Inr h2" and n2: "ncols h2 = 128"
    using n1 by (simp add: Linear_def lin2_def elementwise_shape)
  obtain h3 where h3: "Linear (lin3 net) (elementwise softplus h2) = Inr h3"
    using n2 by (simp add: Linear_def lin3_def elementwise_shape)
  show ?thesis
    unfolding gnn_hidden_def
    by (simp only: and_then_step [OF c1] and_then_step [OF e1] and_then_step [OF o1]
          and_then_step [OF c2] and_then_step [OF c3] and_then_step [OF o3]
          and_then_step [OF h1] and_then_step [OF h2] and_then_step [OF h3]) blast
qed

text \<open>The critic's value has one row per node and one column, whatever the parameters.\<close>

lemma GNNCritic_forward_shape:
  assumes "GNNCritic_forward net d = Inr v"
  shows "length (rows v) = length (rows (data_x d))" and "ncols v = 1"
    and "length (concat (rows v)) = length (rows (data_x d))"
proof -
  from assms obtain h where h: "gnn_hidden net d = Inr h"
    and v: "v = \<lparr> ncols = 1, rows = map (linear_row (critic_lin4 net)) (rows h) \<rparr>"
    by (auto simp: GNNCritic_forward_def and_then_Inr Linear_Inr critic_lin4_def)
  from gnn_hidden_Inr(4) [OF h] v show "length (rows v) = length (rows (data_x d))" by simp
  from v show "ncols v = 1" by simp
  have "length (concat (map (linear_row (critic_lin4 net)) rs)) = length rs" for rs
    by (induction rs) (simp_all add: linear_row_def critic_lin4_def)
  with gnn_hidden_Inr(4) [OF h] v show "length (concat (rows v)) = length (rows (data_x d))"
    by simp
qed

lemma GNNCritic_forward_ok:
  assumes "gnn_hidden net d = Inr h"
  shows "GNNCritic_forward net d
           = Inr \<lparr> ncols = 1, rows = map (\<lambda>r. [sum_list (map2 (\<lambda>i v. lin4_weight net 0 i * v) [0..<32] r)
                                                + lin4_bias net 0]) (rows h) \<rparr>"
  using assms gnn_hidden_Inr(3) [OF assms]
  by (simp add: GNNCritic_forward_def and_then_def Linear_def critic_lin4_def linear_row_def)

lemma GNNActor_forward_ok:
  assumes "gnn_hidden net d = Inr h"
  shows "\<exists>a b. GNNActor_forward net d = Inr (a, b) \<and> length a = length (rows h)
            \<and> length b = length (rows h)"
  using assms gnn_hidden_Inr(3) [OF assms]
  by (simp add: GNNActor_forward_def and_then_def Linear_def actor_lin4_def)

lemma A2C_forward_shape:
  assumes "A2C_forward actor critic d = Inr (c, p, v)"
  shows "length c = length p" and "GNNCritic_forward critic d = Inr v"
  using assms
  by (auto simp: A2C_forward_def GNNActor_forward_def Let_def and_then_Inr)

text \<open>
  The networks that \<open>A2C.__init__\<close> builds never get through \<open>EdgeConv.message\<close>:
  with \<open>in_channels = 2 + 2 * T\<close> the concatenated message is wider than the \<open>3 * T\<close>
  columns its first linear layer takes, so \<open>forward\<close> raises on every graph state, and
  \<open>select_action\<close> with it, leaving the agent as it was.
\<close>

lemma A2C_built_hidden_raises:
  assumes "A2C_built T net"
  shows "\<exists>e. gnn_hidden net d = Inl e"
proof (cases "gnn_hidden net d")
  case (Inl e)
  then show ?thesis by blast
next
  case (Inr h)
  from gnn_hidden_Inr(1,2) [OF Inr] assms have False
    by (simp add: A2C_built_def)
  then show ?thesis ..
qed

lemma A2C_built_forward_raises:
  assumes "A2C_built T actor"
  shows "\<exists>e. A2C_forward actor critic d = Inl e"
proof -
  from A2C_built_hidden_raises [OF assms] obtain e where "gnn_hidden actor d = Inl e" by blast
  then show ?thesis
    by (simp add: A2C_forward_def GNNActor_forward_def and_then_def)
qed

lemma A2C_built_select_action_raises:
  assumes "A2C_built T actor"
  shows "\<exists>e. select_action actor critic eval_mode lib d s = (Inl e, s)"
  using A2C_built_forward_raises [OF assms, of critic d]
  by (auto simp: select_action_def)

subsection \<open>The update\<close>

lemma item_single: "(\<exists>y. item t = Inr y) \<longleftrightarrow> length (concat (rows t)) = 1"
proof -
  have "(\<exists>y. (case ys of [] \<Rightarrow> Inl ItemError | [v] \<Rightarrow> Inr v | _ # _ # _ \<Rightarrow> Inl ItemError) = Inr y)
          \<longleftrightarrow> length ys = 1" for ys :: "real list"
    by (cases ys) (auto split: list.splits)
  then show ?thesis unfolding item_def .
qed

lemma item_fails: "length (concat (rows t)) \<noteq> 1 \<Longrightarrow> item t = Inl ItemError"
  by (auto simp: item_def split: list.splits)

lemma items_loop_fails:
  "sa \<in> set sas \<Longrightarrow> length (concat (rows (snd sa))) \<noteq> 1 \<Longrightarrow> items_loop sas lps vs = Inl ItemError"
proof (induction sas arbitrary: lps vs)
  case Nil
  then show ?case by simp
next
  case (Cons a sas)
  obtain lp v where a: "a = (lp, v)" by (cases a)
  show ?case
  proof (cases "item v")
    case (Inl e)
    then have "e = ItemError" by (auto simp: item_def split: list.splits)
    with Inl a show ?thesis by simp
  next
    case (Inr y)
    then have "length (concat (rows v)) = 1" using item_single [of v] by blast
    with Cons.prems a have "sa \<in> set sas" by auto
    from Cons.IH [OF this Cons.prems(2)] Inr a show ?thesis by simp
  qed
qed

lemma training_step_item_error:
  "sa \<in> set (saved_actions s) \<Longrightarrow> length (concat (rows (snd sa))) \<noteq> 1
   \<Longrightarrow> training_step s = (Inl ItemError, s)"
  by (simp add: training_step_def items_loop_fails Let_def)

lemma training_step_returned:
  assumes "fst (training_step s) = Inr dg"
  shows "snd (training_step s) = s\<lparr> rewards := [], saved_actions := [] \<rparr>"
    and "mean_concentration dg = np_mean (means_concentration s)"
    and "mean_std dg = np_mean (std_concentration s)"
  using assms by (auto simp: training_step_def Let_def split: sum.splits prod.splits if_splits)

lemma training_step_raised:
  assumes "fst (training_step s) = Inl e"
  shows "snd (training_step s) = s"
  using assms by (auto simp: training_step_def Let_def split: sum.splits prod.splits if_splits)

lemma items_loop_ok:
  "\<forall>sa\<in>set sas. length (concat (rows (snd sa))) = 1 \<Longrightarrow> \<exists>lps' vs'. items_loop sas lps vs = Inr (lps', vs')"
proof (induction sas arbitrary: lps vs)
  case Nil
  then show ?case by simp
next
  case (Cons a sas)
  obtain lp v where a: "a = (lp, v)" by (cases a)
  with Cons.prems have "length (concat (rows v)) = 1" by simp
  then obtain y where y: "item v = Inr y" using item_single [of v] by blast
  from Cons.prems have "\<forall>sa\<in>set sas. length (concat (rows (snd sa))) = 1" by simp
  from Cons.IH [OF this] a y show ?case by simp
qed

lemma losses_loop_ok:
  "\<forall>z\<in>set zs. length (concat (rows (snd (fst z)))) = 1 \<Longrightarrow>
   \<exists>pl' vl'. losses_loop zs pl vl = Inr (pl', vl') \<and> length pl' = length pl + length zs"
proof (induction zs arbitrary: pl vl)
  case Nil
  then show ?case by simp
next
  case (Cons z zs)
  obtain lp v R where z: "z = ((lp, v), R)" by (cases z) auto
  with Cons.prems have "length (concat (rows v)) = 1" by simp
  then obtain y where y: "item v = Inr y" using item_single [of v] by blast
  from Cons.prems have "\<forall>z\<in>set zs. length (concat (rows (snd (fst z)))) = 1" by simp
  from Cons.IH [OF this, of "pl @ [- lp * (R - y)]" "vl @ [smooth_l1_loss v R]"] z y
  show ?case by auto
qed

lemma losses_loop_empty:
  "losses_loop zs pl vl = Inr (pl', vl') \<Longrightarrow> length pl' = length pl + length zs"
proof (induction zs arbitrary: pl vl)
  case Nil
  then show ?case by simp
next
  case (Cons z zs)
  obtain lp v R where z: "z = ((lp, v), R)" by (cases z) auto
  from Cons.prems z obtain y where "item v = Inr y"
    and "losses_loop zs (pl @ [- lp * (R - y)]) (vl @ [smooth_l1_loss v R]) = Inr (pl', vl')"
    by (auto split: sum.splits)
  from Cons.IH [OF this(2)] show ?case by simp
qed

lemma normalized_returns_length:
  "length (normalize_returns ep (discounted_returns rs)) = length rs"
  by (simp add: normalize_returns_def discounted_returns_spec returns_spec_length)

text \<open>
  The update returns exactly when every recorded value has one element and neither
  buffer is empty.
\<close>

lemma training_step_ok:
  assumes single: "\<forall>sa\<in>set (saved_actions s). length (concat (rows (snd sa))) = 1"
    and sa: "saved_actions s \<noteq> []" and rw: "rewards s \<noteq> []"
  shows "\<exists>dg. training_step s = (Inr dg, s\<lparr> rewards := [], saved_actions := [] \<rparr>)"
proof -
  let ?ret = "normalize_returns (eps s) (discounted_returns (rewards s))"
  let ?zs = "zip (saved_actions s) ?ret"
  from items_loop_ok [OF single, of "[]" "[]"]
  obtain lps vs where i: "items_loop (saved_actions s) [] [] = Inr (lps, vs)" by blast
  have "\<forall>z\<in>set ?zs. length (concat (rows (snd (fst z)))) = 1"
  proof
    fix z assume "z \<in> set ?zs"
    then have "(fst z, snd z) \<in> set ?zs" by simp
    then have "fst z \<in> set (saved_actions s)"
      by (rule set_zip_leftD)
    with single show "length (concat (rows (snd (fst z)))) = 1" by blast
  qed
  from losses_loop_ok [OF this, of "[]" "[]"]
  obtain pl vl where l: "losses_loop ?zs [] [] = Inr (pl, vl)" and n: "length pl = length ?zs"
    by auto
  have "length ?zs = min (length (saved_actions s)) (length (rewards s))"
    by (simp only: length_zip normalized_returns_length)
  with sa rw have "0 < length ?zs" by simp
  with n have "pl \<noteq> []" by (cases pl) simp_all
  with i l show ?thesis by (simp add: training_step_def Let_def)
qed

lemma training_step_empty:
  assumes "saved_actions s = [] \<or> rewards s = []"
  shows "\<exists>e. training_step s = (Inl e, s)"
proof (cases "items_loop (saved_actions s) [] []")
  case (Inl e)
  then show ?thesis by (simp add: training_step_def Let_def)
next
  case (Inr r)
  obtain lps vs where r: "r = (lps, vs)" by (cases r)
  let ?zs = "zip (saved_actions s) (normalize_returns (eps s) (discounted_returns (rewards s)))"
  have z: "?zs = []"
    using assms normalized_returns_length [of "eps s" "rewards s"] by (cases "saved_actions s") auto
  show ?thesis
    using Inr r by (simp add: training_step_def Let_def z)
qed

subsection \<open>The recorded step on the two-node and the one-node graph\<close>

lemma toy_hidden_two: "\<exists>r1 r2. gnn_hidden toy_net two_node_data = Inr \<lparr> ncols = 32, rows = [r1, r2] \<rparr>"
proof -
  have "\<exists>h. gnn_hidden toy_net two_node_data = Inr h"
    by (rule gnn_hidden_ok)
       (simp_all add: two_node_data_def toy_net_def edges_in_range_def)
  then obtain h where h: "gnn_hidden toy_net two_node_data = Inr h" by blast
  from gnn_hidden_Inr(3,4) [OF h] have "ncols h = 32" and "length (rows h) = 2"
    by (simp_all add: two_node_data_def)
  then obtain r1 r2 where "rows h = [r1, r2]"
    by (cases "rows h"; cases "tl (rows h)") auto
  with \<open>ncols h = 32\<close> have "h = \<lparr> ncols = 32, rows = [r1, r2] \<rparr>" by simp
  with h show ?thesis by blast
qed

lemma toy_hidden_one: "\<exists>r1. gnn_hidden toy_net one_node_data = Inr \<lparr> ncols = 32, rows = [r1] \<rparr>"
proof -
  have "\<exists>h. gnn_hidden toy_net one_node_data = Inr h"
    by (rule gnn_hidden_ok)
       (simp_all add: one_node_data_def toy_net_def edges_in_range_def)
  then obtain h where h: "gnn_hidden toy_net one_node_data = Inr h" by blast
  from gnn_hidden_Inr(3,4) [OF h] have "ncols h = 32" and "length (rows h) = 1"
    by (simp_all add: one_node_data_def)
  then obtain r1 where "rows h = [r1]"
    by (cases "rows h") auto
  with \<open>ncols h = 32\<close> have "h = \<lparr> ncols = 32, rows = [r1] \<rparr>" by simp
  with h show ?thesis by blast
qed

lemma toy_critic_two:
  "\<exists>a b. GNNCritic_forward toy_net two_node_data = Inr \<lparr> ncols = 1, rows = [[a], [b]] \<rparr>"
proof -
  obtain r1 r2 where "gnn_hidden toy_net two_node_data = Inr \<lparr> ncols = 32, rows = [r1, r2] \<rparr>"
    using toy_hidden_two by blast
  from GNNCritic_forward_ok [OF this] show ?thesis by simp
qed

lemma toy_forward_two:
  "\<exists>c p a b. A2C_forward toy_net toy_net two_node_data = Inr (c, p, \<lparr> ncols = 1, rows = [[a], [b]] \<rparr>)"
proof -
  obtain r1 r2 where h: "gnn_hidden toy_net two_node_data = Inr \<lparr> ncols = 32, rows = [r1, r2] \<rparr>"
    using toy_hidden_two by blast
  from GNNActor_forward_ok [OF h] obtain a b where "GNNActor_forward toy_net two_node_data = Inr (a, b)"
    by blast
  moreover obtain x y where "GNNCritic_forward toy_net two_node_data = Inr \<lparr> ncols = 1, rows = [[x], [y]] \<rparr>"
    using toy_critic_two by blast
  ultimately show ?thesis by (simp add: A2C_forward_def and_then_def)
qed

lemma toy_forward_one:
  "\<exists>c p a. A2C_forward toy_net toy_net one_node_data = Inr (c, p, \<lparr> ncols = 1, rows = [[a]] \<rparr>)"
proof -
  obtain r1 where h: "gnn_hidden toy_net one_node_data = Inr \<lparr> ncols = 32, rows = [r1] \<rparr>"
    using toy_hidden_one by blast
  from GNNActor_forward_ok [OF h] obtain a b where "GNNActor_forward toy_net one_node_data = Inr (a, b)"
    by blast
  moreover from GNNCritic_forward_ok [OF h]
  have "\<exists>x. GNNCritic_forward toy_net one_node_data = Inr \<lparr> ncols = 1, rows = [[x]] \<rparr>" by simp
  ultimately show ?thesis by (auto simp add: A2C_forward_def and_then_def)
qed

text \<open>With no participating node the call records the critic's value and returns.\<close>

lemma select_action_all_out:
  assumes "A2C_forward actor critic d = Inr (c, p, v)"
  shows "\<exists>lp. select_action actor critic eval_mode all_out d s
           = (Inr (replicate (length p) 0), s\<lparr> saved_actions := saved_actions s @ [(lp, v)] \<rparr>)"
proof -
  from A2C_forward_shape(1) [OF assms] have len: "length c = length p" .
  have "participating_concentration all_out c (length p) = []"
    by (simp add: no_participant_iff all_out_participates)
  from select_action_from_none [OF len this, of eval_mode v s]
  have "select_action actor critic eval_mode all_out d s
     = (Inr (replicate (length p) 0),
        s\<lparr> saved_actions := saved_actions s @ [(0 + gate_log_prob all_out p, v)] \<rparr>)"
    by (simp add: select_action_def assms)
  then show ?thesis by blast
qed

lemma two_node_episode_buffers:
  "\<exists>lp a b. saved_actions two_node_episode = [(lp, \<lparr> ncols = 1, rows = [[a], [b]] \<rparr>)]
      \<and> rewards two_node_episode = [1]
      \<and> GNNCritic_forward toy_net two_node_data = Inr \<lparr> ncols = 1, rows = [[a], [b]] \<rparr>"
proof -
  obtain c p a b where f: "A2C_forward toy_net toy_net two_node_data = Inr (c, p, \<lparr> ncols = 1, rows = [[a], [b]] \<rparr>)"
    using toy_forward_two by blast
  from select_action_all_out [OF f, of False "A2C_init toy_env"]
  obtain lp where "select_action toy_net toy_net False all_out two_node_data (A2C_init toy_env)
      = (Inr (replicate (length p) 0),
         (A2C_init toy_env)\<lparr> saved_actions := saved_actions (A2C_init toy_env)
             @ [(lp, \<lparr> ncols = 1, rows = [[a], [b]] \<rparr>)] \<rparr>)"
    by blast
  then show ?thesis
    using A2C_forward_shape(2) [OF f]
    by (simp add: two_node_episode_def append_reward_def A2C_init_def)
qed

lemma one_node_episode_buffers:
  "\<exists>lp a. saved_actions one_node_episode = [(lp, \<lparr> ncols = 1, rows = [[a]] \<rparr>)]
      \<and> rewards one_node_episode = [1]
      \<and> GNNCritic_forward toy_net one_node_data = Inr \<lparr> ncols = 1, rows = [[a]] \<rparr>"
proof -
  obtain c p a where f: "A2C_forward toy_net toy_net one_node_data = Inr (c, p, \<lparr> ncols = 1, rows = [[a]] \<rparr>)"
    using toy_forward_one by blast
  from select_action_all_out [OF f, of False "A2C_init toy_env"]
  obtain lp where "select_action toy_net toy_net False all_out one_node_data (A2C_init toy_env)
      = (Inr (replicate (length p) 0),
         (A2C_init toy_env)\<lparr> saved_actions := saved_actions (A2C_init toy_env)
             @ [(lp, \<lparr> ncols = 1, rows = [[a]] \<rparr>)] \<rparr>)"
    by blast
  then show ?thesis
    using A2C_forward_shape(2) [OF f]
    by (simp add: one_node_episode_def append_reward_def A2C_init_def)
qed

lemma one_node_episode_trains:
  "\<exists>dg. training_step one_node_episode
          = (Inr dg, one_node_episode\<lparr> rewards := [], saved_actions := [] \<rparr>)"
proof -
  obtain lp a where "saved_actions one_node_episode = [(lp, \<lparr> ncols = 1, rows = [[a]] \<rparr>)]"
    and "rewards one_node_episode = [1]"
    using one_node_episode_buffers by blast
  then show ?thesis by (intro training_step_ok) simp_all
qed

text \<open>
  Claim C1.  On the two-node graph the critic returns a tensor with two rows of one
  number each, not one scalar, and \<open>item\<close> does not accept it
  (lemma \<open>GNNCritic_forward_shape\<close>: one row per node, for every network and graph
  state on which the critic returns).
\<close>

theorem critic_value_has_one_row_per_node:
  "\<exists>a b. GNNCritic_forward toy_net two_node_data = Inr \<lparr> ncols = 1, rows = [[a], [b]] \<rparr>
       \<and> item \<lparr> ncols = 1, rows = [[a], [b]] \<rparr> = Inl ItemError"
  using toy_critic_two by (auto simp: item_def)

text \<open>
  Claim C9.  \<open>item\<close> returns a number exactly for tensors with one element.  If at
  least one step is recorded and every recorded value is a critic output on a graph of
  \<open>N\<close> nodes, then \<open>training_step\<close> raises at \<open>item\<close> whenever \<open>N \<noteq> 1\<close>, leaving the
  agent as it was; it can return only if \<open>N = 1\<close>.
\<close>

theorem training_step_needs_single_node:
  assumes recorded: "\<forall>sa\<in>set (saved_actions s).
                       \<exists>net d. GNNCritic_forward net d = Inr (snd sa) \<and> length (rows (data_x d)) = N"
    and nonempty: "saved_actions s \<noteq> []"
  shows "(\<forall>t. (\<exists>y. item t = Inr y) \<longleftrightarrow> length (concat (rows t)) = 1)
       \<and> (N \<noteq> 1 \<longrightarrow> training_step s = (Inl ItemError, s))
       \<and> ((\<exists>dg. fst (training_step s) = Inr dg) \<longrightarrow> N = 1)"
proof -
  from nonempty obtain sa where sa: "sa \<in> set (saved_actions s)"
    by (cases "saved_actions s") auto
  with recorded obtain net d where "GNNCritic_forward net d = Inr (snd sa)"
    and "length (rows (data_x d)) = N"
    by blast
  then have n: "length (concat (rows (snd sa))) = N"
    using GNNCritic_forward_shape(3) by blast
  have fails: "N \<noteq> 1 \<longrightarrow> training_step s = (Inl ItemError, s)"
    using training_step_item_error [OF sa] n by simp
  then have "(\<exists>dg. fst (training_step s) = Inr dg) \<longrightarrow> N = 1" by auto
  with fails item_single show ?thesis by blast
qed

text \<open>
  The recorded step on the two-node graph makes the update fail; the same step on the
  one-node graph lets it return.
\<close>

theorem training_step_needs_single_node_witness:
  "\<exists>lp a b.
      saved_actions two_node_episode = [(lp, \<lparr> ncols = 1, rows = [[a], [b]] \<rparr>)]
    \<and> GNNCritic_forward toy_net two_node_data = Inr \<lparr> ncols = 1, rows = [[a], [b]] \<rparr>
    \<and> length (rows (data_x two_node_data)) = 2
    \<and> training_step two_node_episode = (Inl ItemError, two_node_episode)
    \<and> (\<exists>dg. fst (training_step one_node_episode) = Inr dg)"
proof -
  obtain lp a b where sa: "saved_actions two_node_episode = [(lp, \<lparr> ncols = 1, rows = [[a], [b]] \<rparr>)]"
    and cr: "GNNCritic_forward toy_net two_node_data = Inr \<lparr> ncols = 1, rows = [[a], [b]] \<rparr>"
    using two_node_episode_buffers by blast
  have ne: "saved_actions two_node_episode \<noteq> []" by (simp add: sa)
  have two: "length (rows (data_x two_node_data)) = 2" by (simp add: two_node_data_def)
  with cr have rec: "\<forall>sa\<in>set (saved_actions two_node_episode).
         \<exists>net d. GNNCritic_forward net d = Inr (snd sa) \<and> length (rows (data_x d)) = 2"
    unfolding sa by auto
  have ok: "\<exists>dg. fst (training_step one_node_episode) = Inr dg"
    using one_node_episode_trains by auto
  from training_step_needs_single_node [OF rec ne]
  have "training_step two_node_episode = (Inl ItemError, two_node_episode)" by simp
  with sa cr two ok show ?thesis by blast
qed

subsection \<open>The two buffers of an episode\<close>


lemma select_action_from_means:
  "\<exists>ms. means_concentration (snd (select_action_from eval_mode lib fwd s)) = means_concentration s @ ms"
  by (cases fwd) (auto simp: select_action_from_def Let_def split: sum.splits prod.splits)

lemma select_action_from_stds:
  "\<exists>ms. std_concentration (snd (select_action_from eval_mode lib fwd s)) = std_concentration s @ ms"
  by (cases fwd) (auto simp: select_action_from_def Let_def split: sum.splits prod.splits)





lemma all_in_single:
  "0 < c \<Longrightarrow> select_action_from False all_in ([c], [1/2], zero_value) s
     = (Inr [1],
        s\<lparr> means_concentration := means_concentration s @ [c],
           std_concentration := std_concentration s @ [0],
           saved_actions := saved_actions s @ [(0 + ln (1/2), zero_value)] \<rparr>)"
proof -
  assume c: "0 < c"
  have len: "length [c] = length [1/2 :: real]" by simp
  have pc: "participating_concentration all_in [c] (length [1/2::real]) = [c]"
    by (simp add: participating_concentration_def all_in_participates upt1)
  have g: "gate_log_prob all_in [1/2] = ln (1/2)"
    by (simp add: gate_log_prob_def all_in_participates upt1)
  have zs: "map (\<lambda>i. \<not> participates all_in i) [0..<length [1/2::real]] = [False]"
    by (simp add: all_in_participates upt1)
  have dp: "drawn_point False all_in [c] = [1]"
    by (simp add: drawn_point_def all_in_def)
  have lp: "log_prob all_in cs a = 0" for cs a
    by (simp add: all_in_def)
  have ne: "participating_concentration all_in [c] (length [1/2::real]) \<noteq> []"
    unfolding pc by simp
  have ok: "concentration_ok (participating_concentration all_in [c] (length [1/2::real]))"
    unfolding pc using c by (simp add: concentration_ok_def)
  have sx: "on_simplex (participating_concentration all_in [c] (length [1/2::real]))
              (drawn_point False all_in (participating_concentration all_in [c] (length [1/2::real])))"
    unfolding pc dp by (simp add: on_simplex_def)
  show ?thesis
    using select_action_from_ok [OF len ne ok sx, of zero_value s]
    unfolding pc g zs dp by (simp add: lp np_mean_def np_std_def)
qed

lemma first_episode_buffers:
  "saved_actions first_episode = [(0 + ln (1/2), zero_value)]" "rewards first_episode = [1]"
  "means_concentration first_episode = [2]" "std_concentration first_episode = [0]"
  by (simp_all add: first_episode_def all_in_single append_reward_def set_env_def A2C_init_def)

lemma second_episode_buffers:
  "saved_actions second_episode = [(0 + ln (1/2), zero_value)]" "rewards second_episode = [1]"
  "means_concentration second_episode = [2, 4]" "std_concentration second_episode = [0, 0]"
  by (simp_all add: second_episode_def after_first_update_def all_in_single append_reward_def
        first_episode_buffers)



subsection \<open>The concentration statistics\<close>

text \<open>
  Claim C10.  A \<open>training_step\<close> that returns leaves \<open>means_concentration\<close> and
  \<open>std_concentration\<close> as they were, empties \<open>rewards\<close> and \<open>saved_actions\<close>, and reports
  the means of the two untouched buffers; one that raises changes nothing;
  \<open>select_action\<close> and the reward append only extend or keep the two buffers, and
  \<open>set_env\<close> empties them.  So the reported concentration statistics average over
  every step since the last \<open>set_env\<close>.
\<close>

theorem training_step_keeps_concentration_statistics:
  "(training_step s = (Inr dg, s') \<longrightarrow>
      means_concentration s' = means_concentration s
    \<and> std_concentration s' = std_concentration s
    \<and> rewards s' = [] \<and> saved_actions s' = []
    \<and> mean_concentration dg = np_mean (means_concentration s)
    \<and> mean_std dg = np_mean (std_concentration s))
   \<and> means_concentration (snd (training_step s)) = means_concentration s
   \<and> std_concentration (snd (training_step s)) = std_concentration s
   \<and> (\<exists>ms. means_concentration (snd (select_action_from eval_mode lib fwd s)) = means_concentration s @ ms)
   \<and> (\<exists>ms. std_concentration (snd (select_action_from eval_mode lib fwd s)) = std_concentration s @ ms)
   \<and> means_concentration (append_reward r s) = means_concentration s
   \<and> std_concentration (append_reward r s) = std_concentration s
   \<and> means_concentration (set_env e s) = [] \<and> std_concentration (set_env e s) = []"
proof -
  have ret: "training_step s = (Inr dg, s') \<longrightarrow>
      means_concentration s' = means_concentration s
    \<and> std_concentration s' = std_concentration s
    \<and> rewards s' = [] \<and> saved_actions s' = []
    \<and> mean_concentration dg = np_mean (means_concentration s)
    \<and> mean_std dg = np_mean (std_concentration s)"
  proof
    assume t: "training_step s = (Inr dg, s')"
    then have f: "fst (training_step s) = Inr dg" and s': "s' = snd (training_step s)" by simp_all
    from training_step_returned [OF f] s'
    show "means_concentration s' = means_concentration s
      \<and> std_concentration s' = std_concentration s
      \<and> rewards s' = [] \<and> saved_actions s' = []
      \<and> mean_concentration dg = np_mean (means_concentration s)
      \<and> mean_std dg = np_mean (std_concentration s)"
      by simp
  qed
  have keep: "means_concentration (snd (training_step s)) = means_concentration s
      \<and> std_concentration (snd (training_step s)) = std_concentration s"
  proof (cases "fst (training_step s)")
    case (Inl err)
    from training_step_raised [OF Inl] show ?thesis by simp
  next
    case (Inr d)
    from training_step_returned(1) [OF Inr] show ?thesis by simp
  qed
  from ret keep show ?thesis
    using select_action_from_means [of eval_mode lib fwd s] select_action_from_stds [of eval_mode lib fwd s]
    by (simp add: append_reward_def set_env_def)
qed

text \<open>
  Two episodes after one \<open>set_env\<close>, with mean concentrations 2 and 4: the second
  update reports 3, the average over both episodes.
\<close>

theorem training_step_keeps_concentration_statistics_witness:
  "\<exists>dg1 dg2.
      training_step first_episode = (Inr dg1, after_first_update)
    \<and> mean_concentration dg1 = 2
    \<and> means_concentration after_first_update = [2]
    \<and> means_concentration second_episode = [2, 4]
    \<and> training_step second_episode = (Inr dg2, second_episode\<lparr> rewards := [], saved_actions := [] \<rparr>)
    \<and> mean_concentration dg2 = 3
    \<and> means_concentration (second_episode\<lparr> rewards := [], saved_actions := [] \<rparr>) = [2, 4]"
proof -
  obtain dg1 where t1: "training_step first_episode = (Inr dg1, after_first_update)"
    unfolding after_first_update_def
    using training_step_ok [of first_episode] by (auto simp: first_episode_buffers zero_value_def)
  obtain dg2 where t2: "training_step second_episode
        = (Inr dg2, second_episode\<lparr> rewards := [], saved_actions := [] \<rparr>)"
    using training_step_ok [of second_episode] by (auto simp: second_episode_buffers zero_value_def)
  from training_step_keeps_concentration_statistics
         [of first_episode dg1 after_first_update False all_in "([2], [1/2], zero_value)" 1 toy_env] t1
  have m1: "mean_concentration dg1 = 2" "means_concentration after_first_update = [2]"
    by (simp_all add: first_episode_buffers np_mean_def)
  from training_step_keeps_concentration_statistics
         [of second_episode dg2 "second_episode\<lparr> rewards := [], saved_actions := [] \<rparr>"
             False all_in "([4], [1/2], zero_value)" 1 toy_env] t2
  have m2: "mean_concentration dg2 = 3"
    by (simp add: second_episode_buffers np_mean_def)
  from t1 t2 m1 m2 show ?thesis
    by (intro exI [of _ dg1] exI [of _ dg2]) (simp add: second_episode_buffers)
qed

end
